theory Spec2Isabelle
  imports Main "HOL-Library.Sublist"
begin

section \<open>JavaScript built-ins that runtime.ts calls\<close>

text \<open>
  A JavaScript string is modelled as \<open>string\<close>, an array as a list. The array
  methods of runtime.ts are the list functions of HOL:
  \<^item> \<open>xs.find(p)\<close> is \<open>find p xs\<close> (the first element that satisfies \<open>p\<close>;
    \<open>None\<close> is JavaScript's \<open>undefined\<close>);
  \<^item> \<open>xs.some(p)\<close> is \<open>list_ex p xs\<close>;
  \<^item> \<open>xs.filter(p)\<close> is \<open>filter p xs\<close>, \<open>xs.map(f)\<close> is \<open>map f xs\<close>,
    \<open>xs.flatMap(f)\<close> is \<open>concat (map f xs)\<close>;
  \<^item> the spread \<open>[...xs, ...ys]\<close> is \<open>xs @ ys\<close>, and \<open>[...xs, y]\<close> is \<open>xs @ [y]\<close>.
  Every one of them builds a new array; runtime.ts never writes into an existing one.

  \<open>xs.join(sep)\<close> (Array.prototype.join on an array of strings) is written out:
  the empty array gives the empty string, and the separator stands between
  neighbours only.
\<close>

fun join :: "string list \<Rightarrow> string \<Rightarrow> string" where
  "join [] sep = []"
| "join [x] sep = x"
| "join (x # y # ys) sep = x @ sep @ join (y # ys) sep"

text \<open>
  \<open>JSON.stringify(input)\<close> with one argument (ECMA-262, 25.5.2). A JavaScript
  value is one of: \<open>undefined\<close>, \<open>null\<close>, a boolean, a number, a string, an array,
  or a plain object, given as its own enumerable string-keyed properties in the
  order JavaScript enumerates them. Functions, symbols, BigInts, \<open>toJSON\<close> methods
  and cyclic objects are not modelled.

  A number is \<open>NaN\<close>, one of the two infinities, or a finite number. The finite
  numbers are the type parameter \<open>'n\<close>: runtime.ts does no arithmetic, and
  nothing here depends on which numbers there are. \<open>-0\<close> and \<open>0\<close>, which are equal
  in JavaScript (\<open>===\<close>) and are written alike, are one finite number.
\<close>

datatype 'n jsnum = NaN | Infinity | NegInfinity | Finite 'n

datatype 'n jsval =
    JUndefined
  | JNull
  | JBoolean bool
  | JNumber "'n jsnum"
  | JString string
  | JArray "'n jsval list"
  | JObject "(string \<times> 'n jsval) list"

definition hexdigit :: "nat \<Rightarrow> char" where
  "hexdigit n = ''0123456789abcdef'' ! (n mod 16)"

text \<open>
  QuoteJSONString: the seven short escapes, \<open>\u00xx\<close> (lower-case hexadecimal) for
  the other code units below 0x20, every other code unit as it is.
\<close>

definition QuoteJSONChar :: "char \<Rightarrow> string" where
  "QuoteJSONChar c =
    (if c = CHR 0x08 then [CHR 0x5C, CHR ''b'']
     else if c = CHR 0x09 then [CHR 0x5C, CHR ''t'']
     else if c = CHR 0x0A then [CHR 0x5C, CHR ''n'']
     else if c = CHR 0x0C then [CHR 0x5C, CHR ''f'']
     else if c = CHR 0x0D then [CHR 0x5C, CHR ''r'']
     else if c = CHR 0x22 then [CHR 0x5C, CHR 0x22]
     else if c = CHR 0x5C then [CHR 0x5C, CHR 0x5C]
     else if of_char c < (0x20 :: nat)
       then [CHR 0x5C, CHR ''u'', CHR ''0'', CHR ''0'',
             hexdigit (of_char c div 16), hexdigit (of_char c mod 16)]
     else [c])"

definition QuoteJSONString :: "string \<Rightarrow> string" where
  "QuoteJSONString s = [CHR 0x22] @ concat (map QuoteJSONChar s) @ [CHR 0x22]"

text \<open>
  SerializeJSONProperty: \<open>None\<close> is the result \<open>undefined\<close>. An array element that
  serializes to \<open>undefined\<close> is written \<open>null\<close>; an object property that serializes
  to \<open>undefined\<close> is left out; a number that is not finite is written \<open>null\<close>.

  A finite number is written as Number::toString writes it (ECMA-262,
  6.1.6.1.20: the shortest decimal numeral that reads back as the number, in
  plain or in exponent notation). That function is not written out here: it is the
  parameter \<open>Number_toString\<close>.
\<close>

fun SerializeJSONProperty :: "('n \<Rightarrow> string) \<Rightarrow> 'n jsval \<Rightarrow> string option" where
  "SerializeJSONProperty Number_toString JUndefined = None"
| "SerializeJSONProperty Number_toString JNull = Some ''null''"
| "SerializeJSONProperty Number_toString (JBoolean b) = Some (if b then ''true'' else ''false'')"
| "SerializeJSONProperty Number_toString (JNumber n) =
     Some (case n of Finite x \<Rightarrow> Number_toString x | _ \<Rightarrow> ''null'')"
| "SerializeJSONProperty Number_toString (JString s) = Some (QuoteJSONString s)"
| "SerializeJSONProperty Number_toString (JArray elements) =
     Some (''['' @
           join (map (\<lambda>v. case SerializeJSONProperty Number_toString v of
                          None \<Rightarrow> ''null''
                        | Some str \<Rightarrow> str)
                   elements) '','' @
           '']'')"
| "SerializeJSONProperty Number_toString (JObject properties) =
     Some (''{'' @
           join (concat (map (\<lambda>(k, v). case SerializeJSONProperty Number_toString v of
                                  None \<Rightarrow> []
                                | Some str \<Rightarrow> [QuoteJSONString k @ '':'' @ str])
                           properties)) '','' @
           ''}'')"

definition JSON_stringify :: "('n \<Rightarrow> string) \<Rightarrow> 'n jsval \<Rightarrow> string option" where
  "JSON_stringify Number_toString input = SerializeJSONProperty Number_toString input"

section \<open>Identity and content digest\<close>

text \<open>
  The object passed to \<open>nodeHelpers.createNodeHelpers\<close> (package
  gatsby-node-helpers, not part of these sources). The model keeps this object as
  the value of the field \<open>nodeHelpers\<close>: the helpers are a function of it.
\<close>

record 'n NodeHelpers =
  typePrefix :: string
  fieldPrefix :: string
  createNodeId :: "string \<Rightarrow> string"
  createContentDigest :: "'n jsval \<Rightarrow> string"

text \<open>
  \<open>md5\<close> is imported from the package tiny-hashes, which is not part of these
  sources: it is a parameter, a function from the JavaScript value it is given (a
  string, or \<open>undefined\<close> when \<open>JSON.stringify\<close> returns that) to a string.
  runtime.ts 22-23. \<open>createContentDigest\<close> has the parameter \<open>Number_toString\<close> of
  \<open>JSON.stringify\<close> as well.
\<close>

definition createNodeId :: "(string option \<Rightarrow> string) \<Rightarrow> string \<Rightarrow> string" where
  "createNodeId md5 input = md5 (Some input)"

definition createContentDigest ::
  "(string option \<Rightarrow> string) \<Rightarrow> ('n \<Rightarrow> string) \<Rightarrow> 'n jsval \<Rightarrow> string" where
  "createContentDigest md5 Number_toString input = md5 (JSON_stringify Number_toString input)"

section \<open>Data model\<close>

text \<open>
  \<open>prismicT.PrismicDocument\<close>: runtime.ts reads only \<open>document.type\<close>; every other
  property of a document is kept in \<open>document_rest\<close>.
\<close>

record 'a PrismicDocument =
  type :: string
  document_rest :: 'a

text \<open>
  \<open>TypePath\<close> (declared in ../types, outside these sources): a path of field names
  and a field-type tag. The tag's enumeration is not in the sources; it is the type
  parameter \<open>'t\<close>.
\<close>

record 't TypePath =
  path :: "string list"
  type :: 't

text \<open>
  \<open>NormalizedDocumentValue\<close> (declared in ./normalizers, outside these sources):
  runtime.ts reads only \<open>node.prismicId\<close>; every other property of a node is kept in
  \<open>node_rest\<close>.
\<close>

record 'a NormalizedDocumentValue =
  prismicId :: string
  node_rest :: 'a

text \<open>
  \<open>SubscriberFn = () => void\<close>. A function object is compared by reference
  (\<open>!==\<close> in \<open>unsubscribe\<close>), so a subscriber is the identity of its function
  object. What calling it does is given separately, by a function
  \<open>call :: SubscriberFn \<Rightarrow> 'w \<Rightarrow> 'w\<close> from the program state before the call to
  the program state after it (a callback that returns; one that throws or loops is
  outside this model, and runtime.ts has no handler for it).
\<close>

type_synonym SubscriberFn = nat

text \<open>
  \<open>RuntimeConfig\<close>, runtime.ts 25-32: every property is optional (\<open>None\<close> is an
  absent property). The link resolver, the imgix parameters and the HTML serializer
  come from other packages: the type parameters \<open>'lr\<close>, \<open>'ip\<close>, \<open>'hs\<close>.
\<close>

record ('lr, 'ip, 'hs) RuntimeConfig =
  typePrefix :: "string option"
  linkResolver :: "'lr option"
  imageImgixParams :: "'ip option"
  imagePlaceholderImgixParams :: "'ip option"
  htmlSerializer :: "'hs option"
  transformFieldName :: "(string \<Rightarrow> string) option"

text \<open>
  The type of the field \<open>config\<close>, runtime.ts 45-48: \<open>RuntimeConfig\<close> with
  \<open>imageImgixParams\<close>, \<open>imagePlaceholderImgixParams\<close> and \<open>transformFieldName\<close>
  required.
\<close>

record ('lr, 'ip, 'hs) RequiredRuntimeConfig =
  typePrefix :: "string option"
  linkResolver :: "'lr option"
  imageImgixParams :: 'ip
  imagePlaceholderImgixParams :: 'ip
  htmlSerializer :: "'hs option"
  transformFieldName :: "string \<Rightarrow> string"

text \<open>
  The fields of a \<open>Runtime\<close> object, runtime.ts 40-50, and \<open>outside\<close>: the part of
  the program state that is not the Runtime's own but that subscriber callbacks can
  read and write.
\<close>

record ('a, 't, 'lr, 'ip, 'hs, 'n, 'e) Runtime =
  nodes :: "'a NormalizedDocumentValue list"
  typePaths :: "'t TypePath list"
  subscribers :: "SubscriberFn list"
  config :: "('lr, 'ip, 'hs) RequiredRuntimeConfig"
  nodeHelpers :: "'n NodeHelpers"
  outside :: 'e

text \<open>
  The constants of ../constants, which is not part of these sources: parameters.
\<close>

record 'ip constants =
  DEFAULT_IMGIX_PARAMS :: 'ip
  DEFAULT_PLACEHOLDER_IMGIX_PARAMS :: 'ip
  GLOBAL_TYPE_PREFIX :: string

section \<open>Construction\<close>

text \<open>
  \<open>[GLOBAL_TYPE_PREFIX, config.typePrefix].filter(Boolean)\<close>: an absent property
  and the empty string are falsy, every other string is truthy.
\<close>

definition filter_Boolean :: "string option list \<Rightarrow> string list" where
  "filter_Boolean xs =
     concat (map (\<lambda>x. case x of None \<Rightarrow> [] | Some s \<Rightarrow> if s = [] then [] else [s]) xs)"

text \<open>\<open>fieldName.replace(/-/g, '_')\<close>, the default of \<open>transformFieldName\<close>.\<close>

definition replace_hyphens :: "string \<Rightarrow> string" where
  "replace_hyphens fieldName = map (\<lambda>c. if c = CHR ''-'' then CHR ''_'' else c) fieldName"

text \<open>
  The constructor, runtime.ts 52-75. \<open>x ?? d\<close> is \<open>d\<close> when \<open>x\<close> is absent. The
  program state outside the new object is \<open>env\<close>; \<open>md5\<close> and \<open>Number_toString\<close> are
  the parameters of \<open>createNodeId\<close> and \<open>createContentDigest\<close>.
\<close>

definition constructor ::
  "'ip constants \<Rightarrow> (string option \<Rightarrow> string) \<Rightarrow> ('n \<Rightarrow> string)
     \<Rightarrow> ('lr, 'ip, 'hs) RuntimeConfig \<Rightarrow> 'e
     \<Rightarrow> ('a, 't, 'lr, 'ip, 'hs, 'n, 'e) Runtime" where
  "constructor consts md5 Number_toString config' env =
     \<lparr> nodes = [],
       typePaths = [],
       subscribers = [],
       config =
         \<lparr> RequiredRuntimeConfig.typePrefix = RuntimeConfig.typePrefix config',
           linkResolver = RuntimeConfig.linkResolver config',
           imageImgixParams =
             (case RuntimeConfig.imageImgixParams config' of
                Some p \<Rightarrow> p | None \<Rightarrow> DEFAULT_IMGIX_PARAMS consts),
           imagePlaceholderImgixParams =
             (case RuntimeConfig.imagePlaceholderImgixParams config' of
                Some p \<Rightarrow> p | None \<Rightarrow> DEFAULT_PLACEHOLDER_IMGIX_PARAMS consts),
           htmlSerializer = RuntimeConfig.htmlSerializer config',
           transformFieldName =
             (case RuntimeConfig.transformFieldName config' of
                Some f \<Rightarrow> f | None \<Rightarrow> replace_hyphens) \<rparr>,
       nodeHelpers =
         \<lparr> NodeHelpers.typePrefix =
             join (filter_Boolean [Some (GLOBAL_TYPE_PREFIX consts), RuntimeConfig.typePrefix config'])
               '' '',
           NodeHelpers.fieldPrefix = GLOBAL_TYPE_PREFIX consts,
           NodeHelpers.createNodeId = createNodeId md5,
           NodeHelpers.createContentDigest = createContentDigest md5 Number_toString \<rparr>,
       outside = env \<rparr>"

text \<open>\<open>createRuntime\<close>, runtime.ts 36-38; its default argument is \<open>{}\<close>.\<close>

definition empty_config :: "('lr, 'ip, 'hs) RuntimeConfig" where
  "empty_config =
     \<lparr> RuntimeConfig.typePrefix = None, linkResolver = None, imageImgixParams = None,
       imagePlaceholderImgixParams = None, htmlSerializer = None, transformFieldName = None \<rparr>"

definition createRuntime ::
  "'ip constants \<Rightarrow> (string option \<Rightarrow> string) \<Rightarrow> ('n \<Rightarrow> string)
     \<Rightarrow> ('lr, 'ip, 'hs) RuntimeConfig option \<Rightarrow> 'e
     \<Rightarrow> ('a, 't, 'lr, 'ip, 'hs, 'n, 'e) Runtime" where
  "createRuntime consts md5 Number_toString config' env =
     constructor consts md5 Number_toString
       (case config' of None \<Rightarrow> empty_config | Some c \<Rightarrow> c) env"

section \<open>Lookups\<close>

definition SEPARATOR :: string where
  "SEPARATOR = ''__SEPARATOR__''"

text \<open>runtime.ts 192-199.\<close>

definition getNode ::
  "('a, 't, 'lr, 'ip, 'hs, 'n, 'e) Runtime \<Rightarrow> string \<Rightarrow> 'a NormalizedDocumentValue option" where
  "getNode this id' = find (\<lambda>node. prismicId node = id') (nodes this)"

text \<open>runtime.ts 201-203.\<close>

definition hasNode :: "('a, 't, 'lr, 'ip, 'hs, 'n, 'e) Runtime \<Rightarrow> string \<Rightarrow> bool" where
  "hasNode this id' = list_ex (\<lambda>node. prismicId node = id') (nodes this)"

text \<open>runtime.ts 205-210.\<close>

definition getTypePath ::
  "('a, 't, 'lr, 'ip, 'hs, 'n, 'e) Runtime \<Rightarrow> string list \<Rightarrow> 't TypePath option" where
  "getTypePath this path' =
     find (\<lambda>typePath. join (path typePath) SEPARATOR = join path' SEPARATOR) (typePaths this)"

section \<open>Subscribers\<close>

text \<open>runtime.ts 77-79.\<close>

definition subscribe ::
  "SubscriberFn \<Rightarrow> ('a, 't, 'lr, 'ip, 'hs, 'n, 'e) Runtime \<Rightarrow> ('a, 't, 'lr, 'ip, 'hs, 'n, 'e) Runtime" where
  "subscribe callback this = this\<lparr>subscribers := subscribers this @ [callback]\<rparr>"

text \<open>runtime.ts 81-85.\<close>

definition unsubscribe ::
  "SubscriberFn \<Rightarrow> ('a, 't, 'lr, 'ip, 'hs, 'n, 'e) Runtime \<Rightarrow> ('a, 't, 'lr, 'ip, 'hs, 'n, 'e) Runtime" where
  "unsubscribe callback this =
     this\<lparr>subscribers :=
       filter (\<lambda>registeredCallback. registeredCallback \<noteq> callback) (subscribers this)\<rparr>"

text \<open>
  The loop \<open>for (const subscriber of xs) { subscriber() }\<close> over the array \<open>xs\<close>, from
  the program state \<open>w\<close>. It returns the program state after the last call, and the
  calls it made, in order, each with the program state it was made in.
\<close>

fun for_of_call ::
  "(SubscriberFn \<Rightarrow> 'w \<Rightarrow> 'w) \<Rightarrow> SubscriberFn list \<Rightarrow> 'w \<Rightarrow> 'w \<times> (SubscriberFn \<times> 'w) list" where
  "for_of_call call [] w = (w, [])"
| "for_of_call call (subscriber # rest) w =
     (let (w', calls) = for_of_call call rest (call subscriber w)
      in (w', (subscriber, w) # calls))"

text \<open>
  \<open>#notifySubscribers\<close>, runtime.ts 212-216. \<open>this.subscribers\<close> is read once, when
  the loop starts, and the loop goes through the array it read: \<open>subscribe\<close> and
  \<open>unsubscribe\<close> assign a new array to the field and never write into the old one.
\<close>

definition notifySubscribers ::
  "(SubscriberFn \<Rightarrow> ('a, 't, 'lr, 'ip, 'hs, 'n, 'e) Runtime \<Rightarrow> ('a, 't, 'lr, 'ip, 'hs, 'n, 'e) Runtime)
     \<Rightarrow> ('a, 't, 'lr, 'ip, 'hs, 'n, 'e) Runtime
     \<Rightarrow> ('a, 't, 'lr, 'ip, 'hs, 'n, 'e) Runtime
         \<times> (SubscriberFn \<times> ('a, 't, 'lr, 'ip, 'hs, 'n, 'e) Runtime) list" where
  "notifySubscribers call this = for_of_call call (subscribers this) this"

section \<open>Registration\<close>

text \<open>
  What a call of a registering method gives: the value it returns, the program
  state when it returns, and the subscriber calls it made.
\<close>

record ('r, 'w) completed =
  returned :: 'r
  after :: 'w
  notified :: "(SubscriberFn \<times> 'w) list"

text \<open>
  \<open>customTypeModelToTypePaths\<close> and \<open>sharedSliceModelToTypePaths\<close> (./typePaths) are
  not part of these sources: each is a parameter of the method that calls it, a
  function of the model and of the field-name transform.
\<close>

text \<open>runtime.ts 87-98.\<close>

definition registerCustomTypeModel ::
  "('m \<Rightarrow> (string \<Rightarrow> string) \<Rightarrow> 't TypePath list)
     \<Rightarrow> (SubscriberFn \<Rightarrow> ('a, 't, 'lr, 'ip, 'hs, 'n, 'e) Runtime \<Rightarrow> ('a, 't, 'lr, 'ip, 'hs, 'n, 'e) Runtime)
     \<Rightarrow> 'm \<Rightarrow> ('a, 't, 'lr, 'ip, 'hs, 'n, 'e) Runtime
     \<Rightarrow> ('t TypePath list, ('a, 't, 'lr, 'ip, 'hs, 'n, 'e) Runtime) completed" where
  "registerCustomTypeModel customTypeModelToTypePaths call model this =
     (let typePaths' = customTypeModelToTypePaths model (transformFieldName (config this));
          this1 = this\<lparr>typePaths := typePaths this @ typePaths'\<rparr>;
          (this2, calls) = notifySubscribers call this1
      in \<lparr>returned = typePaths', after = this2, notified = calls\<rparr>)"

text \<open>runtime.ts 100-110.\<close>

definition registerCustomTypeModels ::
  "('m \<Rightarrow> (string \<Rightarrow> string) \<Rightarrow> 't TypePath list)
     \<Rightarrow> (SubscriberFn \<Rightarrow> ('a, 't, 'lr, 'ip, 'hs, 'n, 'e) Runtime \<Rightarrow> ('a, 't, 'lr, 'ip, 'hs, 'n, 'e) Runtime)
     \<Rightarrow> 'm list \<Rightarrow> ('a, 't, 'lr, 'ip, 'hs, 'n, 'e) Runtime
     \<Rightarrow> ('t TypePath list, ('a, 't, 'lr, 'ip, 'hs, 'n, 'e) Runtime) completed" where
  "registerCustomTypeModels customTypeModelToTypePaths call models this =
     (let typePaths' =
            concat (map (\<lambda>model. customTypeModelToTypePaths model (transformFieldName (config this)))
                      models);
          this1 = this\<lparr>typePaths := typePaths this @ typePaths'\<rparr>;
          (this2, calls) = notifySubscribers call this1
      in \<lparr>returned = typePaths', after = this2, notified = calls\<rparr>)"

text \<open>runtime.ts 112-123.\<close>

definition registerSharedSliceModel ::
  "('m \<Rightarrow> (string \<Rightarrow> string) \<Rightarrow> 't TypePath list)
     \<Rightarrow> (SubscriberFn \<Rightarrow> ('a, 't, 'lr, 'ip, 'hs, 'n, 'e) Runtime \<Rightarrow> ('a, 't, 'lr, 'ip, 'hs, 'n, 'e) Runtime)
     \<Rightarrow> 'm \<Rightarrow> ('a, 't, 'lr, 'ip, 'hs, 'n, 'e) Runtime
     \<Rightarrow> ('t TypePath list, ('a, 't, 'lr, 'ip, 'hs, 'n, 'e) Runtime) completed" where
  "registerSharedSliceModel sharedSliceModelToTypePaths call model this =
     (let typePaths' = sharedSliceModelToTypePaths model (transformFieldName (config this));
          this1 = this\<lparr>typePaths := typePaths this @ typePaths'\<rparr>;
          (this2, calls) = notifySubscribers call this1
      in \<lparr>returned = typePaths', after = this2, notified = calls\<rparr>)"

text \<open>runtime.ts 125-135.\<close>

definition registerSharedSliceModels ::
  "('m \<Rightarrow> (string \<Rightarrow> string) \<Rightarrow> 't TypePath list)
     \<Rightarrow> (SubscriberFn \<Rightarrow> ('a, 't, 'lr, 'ip, 'hs, 'n, 'e) Runtime \<Rightarrow> ('a, 't, 'lr, 'ip, 'hs, 'n, 'e) Runtime)
     \<Rightarrow> 'm list \<Rightarrow> ('a, 't, 'lr, 'ip, 'hs, 'n, 'e) Runtime
     \<Rightarrow> ('t TypePath list, ('a, 't, 'lr, 'ip, 'hs, 'n, 'e) Runtime) completed" where
  "registerSharedSliceModels sharedSliceModelToTypePaths call models this =
     (let typePaths' =
            concat (map (\<lambda>model. sharedSliceModelToTypePaths model (transformFieldName (config this)))
                      models);
          this1 = this\<lparr>typePaths := typePaths this @ typePaths'\<rparr>;
          (this2, calls) = notifySubscribers call this1
      in \<lparr>returned = typePaths', after = this2, notified = calls\<rparr>)"

text \<open>runtime.ts 137-141.\<close>

definition registerTypePaths ::
  "(SubscriberFn \<Rightarrow> ('a, 't, 'lr, 'ip, 'hs, 'n, 'e) Runtime \<Rightarrow> ('a, 't, 'lr, 'ip, 'hs, 'n, 'e) Runtime)
     \<Rightarrow> 't TypePath list \<Rightarrow> ('a, 't, 'lr, 'ip, 'hs, 'n, 'e) Runtime
     \<Rightarrow> (unit, ('a, 't, 'lr, 'ip, 'hs, 'n, 'e) Runtime) completed" where
  "registerTypePaths call typePaths' this =
     (let this1 = this\<lparr>typePaths := typePaths this @ typePaths'\<rparr>;
          (this2, calls) = notifySubscribers call this1
      in \<lparr>returned = (), after = this2, notified = calls\<rparr>)"

text \<open>
  The object that \<open>Runtime.normalize\<close> passes to \<open>normalize\<close> (./normalize),
  runtime.ts 178-189. Its properties have the names of the source, with a prime.
  \<open>getNode'\<close> and \<open>getTypePath'\<close> are the two lookups bound to the Runtime object.
\<close>

record ('v, 'a, 't, 'lr, 'ip, 'hs, 'n) NormalizeConfig =
  value' :: 'v
  path' :: "string list"
  getNode' :: "string \<Rightarrow> 'a NormalizedDocumentValue option"
  getTypePath' :: "string list \<Rightarrow> 't TypePath option"
  nodeHelpers' :: "'n NodeHelpers"
  linkResolver' :: "'lr option"
  htmlSerializer' :: "'hs option"
  imageImgixParams' :: 'ip
  imagePlaceholderImgixParams' :: 'ip
  transformFieldName' :: "string \<Rightarrow> string"

text \<open>
  \<open>Runtime.normalize\<close>, runtime.ts 177-190. The function \<open>normalize\<close> of ./normalize is
  not part of these sources: it is the parameter \<open>normalize_fn\<close>, a function of the
  object it is given.
\<close>

definition normalize ::
  "(('v, 'a, 't, 'lr, 'ip, 'hs, 'n) NormalizeConfig \<Rightarrow> 'r)
     \<Rightarrow> 'v \<Rightarrow> string list \<Rightarrow> ('a, 't, 'lr, 'ip, 'hs, 'n, 'e) Runtime \<Rightarrow> 'r" where
  "normalize normalize_fn v p this =
     normalize_fn
       \<lparr> value' = v,
         path' = p,
         getNode' = getNode this,
         getTypePath' = getTypePath this,
         nodeHelpers' = nodeHelpers this,
         linkResolver' = linkResolver (config this),
         htmlSerializer' = htmlSerializer (config this),
         imageImgixParams' = imageImgixParams (config this),
         imagePlaceholderImgixParams' = imagePlaceholderImgixParams (config this),
         transformFieldName' = transformFieldName (config this) \<rparr>"

text \<open>runtime.ts 169-175.\<close>

definition normalizeDocument ::
  "(('d PrismicDocument, 'a, 't, 'lr, 'ip, 'hs, 'n) NormalizeConfig \<Rightarrow> 'a NormalizedDocumentValue)
     \<Rightarrow> 'd PrismicDocument \<Rightarrow> ('a, 't, 'lr, 'ip, 'hs, 'n, 'e) Runtime
     \<Rightarrow> 'a NormalizedDocumentValue" where
  "normalizeDocument normalize_fn document this =
     normalize normalize_fn document [PrismicDocument.type document] this"

text \<open>runtime.ts 143-153.\<close>

definition registerDocument ::
  "(('d PrismicDocument, 'a, 't, 'lr, 'ip, 'hs, 'n) NormalizeConfig \<Rightarrow> 'a NormalizedDocumentValue)
     \<Rightarrow> (SubscriberFn \<Rightarrow> ('a, 't, 'lr, 'ip, 'hs, 'n, 'e) Runtime \<Rightarrow> ('a, 't, 'lr, 'ip, 'hs, 'n, 'e) Runtime)
     \<Rightarrow> 'd PrismicDocument \<Rightarrow> ('a, 't, 'lr, 'ip, 'hs, 'n, 'e) Runtime
     \<Rightarrow> ('a NormalizedDocumentValue, ('a, 't, 'lr, 'ip, 'hs, 'n, 'e) Runtime) completed" where
  "registerDocument normalize_fn call document this =
     (let normalizedDocument = normalizeDocument normalize_fn document this;
          this1 = this\<lparr>nodes := nodes this @ [normalizedDocument]\<rparr>;
          (this2, calls) = notifySubscribers call this1
      in \<lparr>returned = normalizedDocument, after = this2, notified = calls\<rparr>)"

text \<open>runtime.ts 155-167.\<close>

definition registerDocuments ::
  "(('d PrismicDocument, 'a, 't, 'lr, 'ip, 'hs, 'n) NormalizeConfig \<Rightarrow> 'a NormalizedDocumentValue)
     \<Rightarrow> (SubscriberFn \<Rightarrow> ('a, 't, 'lr, 'ip, 'hs, 'n, 'e) Runtime \<Rightarrow> ('a, 't, 'lr, 'ip, 'hs, 'n, 'e) Runtime)
     \<Rightarrow> 'd PrismicDocument list \<Rightarrow> ('a, 't, 'lr, 'ip, 'hs, 'n, 'e) Runtime
     \<Rightarrow> ('a NormalizedDocumentValue list, ('a, 't, 'lr, 'ip, 'hs, 'n, 'e) Runtime) completed" where
  "registerDocuments normalize_fn call documents this =
     (let nodes' = map (\<lambda>document. normalizeDocument normalize_fn document this) documents;
          this1 = this\<lparr>nodes := nodes this @ nodes'\<rparr>;
          (this2, calls) = notifySubscribers call this1
      in \<lparr>returned = nodes', after = this2, notified = calls\<rparr>)"

section \<open>The registering methods as one function\<close>

text \<open>
  The functions that runtime.ts imports from ./typePaths and ./normalize, as one
  record of parameters.
\<close>

record ('m, 's, 't, 'd, 'a, 'lr, 'ip, 'hs, 'n) externals =
  customTypeModelToTypePaths :: "'m \<Rightarrow> (string \<Rightarrow> string) \<Rightarrow> 't TypePath list"
  sharedSliceModelToTypePaths :: "'s \<Rightarrow> (string \<Rightarrow> string) \<Rightarrow> 't TypePath list"
  normalize_fn :: "('d PrismicDocument, 'a, 't, 'lr, 'ip, 'hs, 'n) NormalizeConfig \<Rightarrow> 'a NormalizedDocumentValue"

datatype ('m, 's, 't, 'd) mutation =
    RegisterCustomTypeModel 'm
  | RegisterCustomTypeModels "'m list"
  | RegisterSharedSliceModel 's
  | RegisterSharedSliceModels "'s list"
  | RegisterTypePaths "'t TypePath list"
  | RegisterDocument "'d PrismicDocument"
  | RegisterDocuments "'d PrismicDocument list"

text \<open>
  The seven methods that assign to \<open>typePaths\<close> or \<open>nodes\<close>, as one type of calls,
  and \<open>perform\<close>, which makes the call: it gives the program state when the method
  returns and the subscriber calls the method made.
\<close>

definition perform ::
  "('m, 's, 't, 'd, 'a, 'lr, 'ip, 'hs, 'n) externals
     \<Rightarrow> (SubscriberFn \<Rightarrow> ('a, 't, 'lr, 'ip, 'hs, 'n, 'e) Runtime \<Rightarrow> ('a, 't, 'lr, 'ip, 'hs, 'n, 'e) Runtime)
     \<Rightarrow> ('m, 's, 't, 'd) mutation \<Rightarrow> ('a, 't, 'lr, 'ip, 'hs, 'n, 'e) Runtime
     \<Rightarrow> ('a, 't, 'lr, 'ip, 'hs, 'n, 'e) Runtime \<times> (SubscriberFn \<times> ('a, 't, 'lr, 'ip, 'hs, 'n, 'e) Runtime) list" where
  "perform ext call m this =
     (case m of
        RegisterCustomTypeModel model \<Rightarrow>
          (let r = registerCustomTypeModel (customTypeModelToTypePaths ext) call model this
           in (after r, notified r))
      | RegisterCustomTypeModels models \<Rightarrow>
          (let r = registerCustomTypeModels (customTypeModelToTypePaths ext) call models this
           in (after r, notified r))
      | RegisterSharedSliceModel model \<Rightarrow>
          (let r = registerSharedSliceModel (sharedSliceModelToTypePaths ext) call model this
           in (after r, notified r))
      | RegisterSharedSliceModels models \<Rightarrow>
          (let r = registerSharedSliceModels (sharedSliceModelToTypePaths ext) call models this
           in (after r, notified r))
      | RegisterTypePaths typePaths' \<Rightarrow>
          (let r = registerTypePaths call typePaths' this in (after r, notified r))
      | RegisterDocument document \<Rightarrow>
          (let r = registerDocument (normalize_fn ext) call document this in (after r, notified r))
      | RegisterDocuments documents \<Rightarrow>
          (let r = registerDocuments (normalize_fn ext) call documents this
           in (after r, notified r)))"

text \<open>
  What a method appends: the nodes it appends to \<open>nodes\<close> and the TypePaths it appends
  to \<open>typePaths\<close>; and \<open>mutated\<close>, the Runtime with both appended and nothing else
  changed.
\<close>

definition appended ::
  "('m, 's, 't, 'd, 'a, 'lr, 'ip, 'hs, 'n) externals
     \<Rightarrow> ('m, 's, 't, 'd) mutation \<Rightarrow> ('a, 't, 'lr, 'ip, 'hs, 'n, 'e) Runtime
     \<Rightarrow> 'a NormalizedDocumentValue list \<times> 't TypePath list" where
  "appended ext m this =
     (case m of
        RegisterCustomTypeModel model \<Rightarrow>
          ([], customTypeModelToTypePaths ext model (transformFieldName (config this)))
      | RegisterCustomTypeModels models \<Rightarrow>
          ([], concat (map (\<lambda>model. customTypeModelToTypePaths ext model
                                       (transformFieldName (config this))) models))
      | RegisterSharedSliceModel model \<Rightarrow>
          ([], sharedSliceModelToTypePaths ext model (transformFieldName (config this)))
      | RegisterSharedSliceModels models \<Rightarrow>
          ([], concat (map (\<lambda>model. sharedSliceModelToTypePaths ext model
                                       (transformFieldName (config this))) models))
      | RegisterTypePaths typePaths' \<Rightarrow> ([], typePaths')
      | RegisterDocument document \<Rightarrow> ([normalizeDocument (normalize_fn ext) document this], [])
      | RegisterDocuments documents \<Rightarrow>
          (map (\<lambda>document. normalizeDocument (normalize_fn ext) document this) documents, []))"

definition mutated ::
  "('m, 's, 't, 'd, 'a, 'lr, 'ip, 'hs, 'n) externals
     \<Rightarrow> ('m, 's, 't, 'd) mutation \<Rightarrow> ('a, 't, 'lr, 'ip, 'hs, 'n, 'e) Runtime
     \<Rightarrow> ('a, 't, 'lr, 'ip, 'hs, 'n, 'e) Runtime" where
  "mutated ext m this =
     this\<lparr>nodes := nodes this @ fst (appended ext m this),
          typePaths := typePaths this @ snd (appended ext m this)\<rparr>"

section \<open>Kinds of subscriber callbacks\<close>

text \<open>
  A callback only reads the Runtime when calling it changes nothing but the program
  state outside the Runtime. Callbacks only append to a field (a list) when calling
  one leaves what the field held as a prefix of what it holds afterwards.
\<close>

definition only_reads ::
  "(SubscriberFn \<Rightarrow> ('a, 't, 'lr, 'ip, 'hs, 'n, 'e) Runtime \<Rightarrow> ('a, 't, 'lr, 'ip, 'hs, 'n, 'e) Runtime) \<Rightarrow> bool" where
  "only_reads call \<longleftrightarrow> (\<forall>f w. call f w = w\<lparr>outside := outside (call f w)\<rparr>)"

definition only_appends ::
  "('w \<Rightarrow> 'x list) \<Rightarrow> (SubscriberFn \<Rightarrow> 'w \<Rightarrow> 'w) \<Rightarrow> bool" where
  "only_appends field call \<longleftrightarrow> (\<forall>f w. prefix (field w) (field (call f w)))"

section \<open>Callbacks that subscribe and unsubscribe\<close>

text \<open>
  A callback that, when it is called, makes a sequence of calls of \<open>subscribe\<close> and
  \<open>unsubscribe\<close> on the Runtime.
\<close>

datatype subscription_call = Subscribe SubscriberFn | Unsubscribe SubscriberFn

fun make_subscription_calls ::
  "subscription_call list \<Rightarrow> ('a, 't, 'lr, 'ip, 'hs, 'n, 'e) Runtime
     \<Rightarrow> ('a, 't, 'lr, 'ip, 'hs, 'n, 'e) Runtime" where
  "make_subscription_calls [] this = this"
| "make_subscription_calls (Subscribe callback # rest) this =
     make_subscription_calls rest (subscribe callback this)"
| "make_subscription_calls (Unsubscribe callback # rest) this =
     make_subscription_calls rest (unsubscribe callback this)"

section \<open>Plain path components\<close>

text \<open>
  A path component is plain when it is not empty and has no capital \<open>S\<close> in it:
  in a joined path of plain components, every \<open>S\<close> is the one of a separator.
\<close>

definition plain_component :: "string \<Rightarrow> bool" where
  "plain_component c \<longleftrightarrow> c \<noteq> [] \<and> CHR ''S'' \<notin> set c"

section \<open>JSON values and their text\<close>

text \<open>
  A value is JSON when \<open>undefined\<close>, \<open>NaN\<close> and the infinities occur nowhere in
  it: it is built from \<open>null\<close>, booleans, finite numbers, strings, arrays and
  objects.

  What is used of Number::toString is \<open>number_texts\<close>: it gives different finite
  numbers different texts, and the text of a finite number is not empty and is
  written with the ten digits, the two signs, the point and the letter \<open>e\<close> only.
  (ECMA-262, 6.1.6.1.20, writes a finite number with these characters, and so that
  the text reads back as the number.)

  \<open>json_text\<close> is the text of a value as \<open>JSON.stringify\<close> writes it inside an
  array; \<open>member_text\<close> is the text of one property of an object;
  \<open>comma_separated\<close> puts a comma between the texts of a list. A text is delimited
  when it is empty or begins with a comma or a closing bracket; \<open>first_chars\<close>
  gives the characters the text of a value can begin with.
\<close>

fun is_JSON :: "'n jsval \<Rightarrow> bool" where
  "is_JSON JUndefined = False"
| "is_JSON JNull = True"
| "is_JSON (JBoolean b) = True"
| "is_JSON (JNumber n) = (case n of Finite x \<Rightarrow> True | _ \<Rightarrow> False)"
| "is_JSON (JString s) = True"
| "is_JSON (JArray elements) = list_all is_JSON elements"
| "is_JSON (JObject properties) = list_all (\<lambda>(k, v). is_JSON v) properties"

definition number_char :: "char \<Rightarrow> bool" where
  "number_char c \<longleftrightarrow> c \<in> set ''0123456789+-.e''"

definition number_texts :: "('n \<Rightarrow> string) \<Rightarrow> bool" where
  "number_texts Number_toString \<longleftrightarrow>
     inj Number_toString
     \<and> (\<forall>x. Number_toString x \<noteq> [] \<and> (\<forall>c \<in> set (Number_toString x). number_char c))"

definition json_text :: "('n \<Rightarrow> string) \<Rightarrow> 'n jsval \<Rightarrow> string" where
  "json_text Number_toString v =
     (case SerializeJSONProperty Number_toString v of None \<Rightarrow> ''null'' | Some str \<Rightarrow> str)"

definition delimited :: "string \<Rightarrow> bool" where
  "delimited r \<longleftrightarrow> (case r of [] \<Rightarrow> True | c # _ \<Rightarrow> c \<in> set '',]}'')"

definition member_text :: "('n \<Rightarrow> string) \<Rightarrow> string \<times> 'n jsval \<Rightarrow> string" where
  "member_text Number_toString p =
     QuoteJSONString (fst p) @ CHR '':'' # json_text Number_toString (snd p)"

definition comma_separated :: "('x \<Rightarrow> string) \<Rightarrow> 'x list \<Rightarrow> string" where
  "comma_separated f xs =
     (case xs of [] \<Rightarrow> [] | x # rest \<Rightarrow> f x @ concat (map (\<lambda>y. CHR '','' # f y) rest))"

fun first_chars :: "'n jsval \<Rightarrow> char set" where
  "first_chars JUndefined = {}"
| "first_chars JNull = {CHR ''n''}"
| "first_chars (JBoolean b) = {CHR ''t'', CHR ''f''}"
| "first_chars (JNumber n) = set ''0123456789+-.e''"
| "first_chars (JString s) = {CHR 0x22}"
| "first_chars (JArray elements) = {CHR ''[''}"
| "first_chars (JObject properties) = {CHR ''{''}"

section \<open>Example values\<close>

text \<open>
  A Runtime made by \<open>createRuntime()\<close>, for the concrete instances below. The tag of
  a TypePath is a string; a document carries a string beside its type, a node the
  path it was normalized at; the program state outside the Runtime is a list of
  subscribers, to which a callback can append itself. A custom type model and a
  shared slice model are lists of field names here. In the place of
  Number::toString stands \<open>plain_decimal\<close>, on the integers in the place of the
  finite numbers: the digits of an integer, after a minus sign when it is negative.
\<close>

definition is_digit :: "char \<Rightarrow> bool" where
  "is_digit c \<longleftrightarrow> c \<in> set ''0123456789''"

fun decimal :: "nat \<Rightarrow> string" where
  "decimal n = (if n < 10 then [hexdigit n] else decimal (n div 10) @ [hexdigit (n mod 10)])"

definition plain_decimal :: "int \<Rightarrow> string" where
  "plain_decimal i = (if i < 0 then CHR ''-'' # decimal (nat (- i)) else decimal (nat i))"

definition example_constants :: "unit constants" where
  "example_constants =
     \<lparr>DEFAULT_IMGIX_PARAMS = (), DEFAULT_PLACEHOLDER_IMGIX_PARAMS = (),
      GLOBAL_TYPE_PREFIX = ''Prismic''\<rparr>"

definition example_runtime ::
  "(string list, string, unit, unit, unit, int, SubscriberFn list) Runtime" where
  "example_runtime = createRuntime example_constants (\<lambda>_. []) plain_decimal None []"

definition example_typePaths :: "string TypePath list" where
  "example_typePaths =
     [\<lparr>path = [''page'', ''title''], type = ''Text''\<rparr>,
      \<lparr>path = [''page'', ''my_field''], type = ''Select''\<rparr>,
      \<lparr>path = [''post'', ''body''], type = ''Slices''\<rparr>,
      \<lparr>path = [''page'', ''my_field''], type = ''Text''\<rparr>]"

definition example_externals ::
  "(string list, string list, string, string, string list, unit, unit, unit, int) externals" where
  "example_externals =
     \<lparr> customTypeModelToTypePaths = (\<lambda>model transform. [\<lparr>path = map transform model, type = ''Select''\<rparr>]),
       sharedSliceModelToTypePaths = (\<lambda>model transform. [\<lparr>path = map transform model, type = ''Slice''\<rparr>]),
       normalize_fn = (\<lambda>c. \<lparr>prismicId = document_rest (value' c), node_rest = path' c\<rparr>) \<rparr>"

definition example_call ::
  "SubscriberFn \<Rightarrow> (string list, string, unit, unit, unit, int, SubscriberFn list) Runtime
     \<Rightarrow> (string list, string, unit, unit, unit, int, SubscriberFn list) Runtime" where
  "example_call f w = w\<lparr>outside := outside w @ [f]\<rparr>"

definition example_subscribed :: "(string list, string, unit, unit, unit, int, SubscriberFn list) Runtime" where
  "example_subscribed = subscribe 3 (subscribe 1 (subscribe 3 example_runtime))"

definition example_nodes :: "string list NormalizedDocumentValue list" where
  "example_nodes =
     [\<lparr>prismicId = ''X1'', node_rest = [''page'']\<rparr>,
      \<lparr>prismicId = ''X2'', node_rest = [''post'']\<rparr>,
      \<lparr>prismicId = ''X2'', node_rest = [''page'']\<rparr>]"

definition example_document :: "string PrismicDocument" where
  "example_document = \<lparr>PrismicDocument.type = ''page'', document_rest = ''X1''\<rparr>"

definition example_documents :: "string PrismicDocument list" where
  "example_documents =
     [\<lparr>PrismicDocument.type = ''post'', document_rest = ''X2''\<rparr>,
      \<lparr>PrismicDocument.type = ''page'', document_rest = ''X3''\<rparr>]"

definition example_script :: "SubscriberFn \<Rightarrow> subscription_call list" where
  "example_script f =
     (if f = 0 then [Subscribe 5] else if f = 1 then [Unsubscribe 2, Unsubscribe 0] else [])"

text \<open>
  A function in the place of \<open>md5\<close> that keeps the string it is given apart.
\<close>

definition example_md5 :: "string option \<Rightarrow> string" where
  "example_md5 x = (case x of None \<Rightarrow> ''undefined'' | Some s \<Rightarrow> CHR ''#'' # s)"

section \<open>Facts about lists\<close>

lemma find_skip_prefix:
  "(\<forall>x \<in> set pre. \<not> P x) \<Longrightarrow> find P (pre @ ys) = find P ys"
  by (induction pre) auto

lemma map_const_on_set:
  "(\<forall>x \<in> set xs. g x = c) \<Longrightarrow> map g xs = replicate (length xs) c"
  by (induction xs) auto

lemma first_occurrence_eq:
  "a \<notin> set xs \<Longrightarrow> a \<notin> set ys \<Longrightarrow> xs @ a # r = ys @ a # s \<Longrightarrow> xs = ys \<and> r = s"
proof (induction xs arbitrary: ys)
  case Nil
  then show ?case by (cases ys) auto
next
  case (Cons x xs)
  then show ?case by (cases ys) auto
qed

lemma SEPARATOR_split: "SEPARATOR = ''__'' @ CHR ''S'' # ''EPARATOR__''"
  by (simp add: SEPARATOR_def)

lemma separated_eq:
  assumes "CHR ''S'' \<notin> set x" "CHR ''S'' \<notin> set y"
    and "x @ SEPARATOR @ r = y @ SEPARATOR @ s"
  shows "x = y \<and> r = s"
proof -
  have "(x @ ''__'') @ CHR ''S'' # (''EPARATOR__'' @ r) = (y @ ''__'') @ CHR ''S'' # (''EPARATOR__'' @ s)"
    using assms(3) by (simp add: SEPARATOR_split)
  moreover have "CHR ''S'' \<notin> set (x @ ''__'')" "CHR ''S'' \<notin> set (y @ ''__'')"
    using assms(1,2) by simp_all
  ultimately have "x @ ''__'' = y @ ''__'' \<and> ''EPARATOR__'' @ r = ''EPARATOR__'' @ s"
    by (intro first_occurrence_eq)
  then show ?thesis by simp
qed

lemma join_has_S: "CHR ''S'' \<in> set (join (x # y # ys) SEPARATOR)"
  by (simp add: SEPARATOR_def)

lemma join_plain_inject:
  assumes "\<forall>c \<in> set p. plain_component c" "\<forall>c \<in> set q. plain_component c"
    and "join p SEPARATOR = join q SEPARATOR"
  shows "p = q"
  using assms
proof (induction p arbitrary: q rule: induct_list012)
  case 1
  show ?case
  proof (cases q)
    case Nil
    then show ?thesis by simp
  next
    case (Cons y ys)
    with "1.prems" show ?thesis
      by (cases ys) (auto simp: plain_component_def)
  qed
next
  case (2 x)
  show ?case
  proof (cases q)
    case Nil
    with "2.prems" show ?thesis by (auto simp: plain_component_def)
  next
    case (Cons y ys)
    show ?thesis
    proof (cases ys)
      case Nil
      with Cons "2.prems" show ?thesis by simp
    next
      case (Cons z zs)
      with \<open>q = y # ys\<close> "2.prems" join_has_S [of y z zs] show ?thesis
        by (auto simp: plain_component_def)
    qed
  qed
next
  case (3 x x2 xs)
  show ?case
  proof (cases q)
    case Nil
    with "3.prems" show ?thesis by (auto simp: plain_component_def)
  next
    case (Cons y ys)
    show ?thesis
    proof (cases ys)
      case Nil
      with Cons "3.prems" join_has_S [of x x2 xs] show ?thesis
        by (auto simp: plain_component_def)
    next
      case (Cons y2 zs)
      with \<open>q = y # ys\<close> "3.prems"
      have e: "x @ SEPARATOR @ join (x2 # xs) SEPARATOR = y @ SEPARATOR @ join (y2 # zs) SEPARATOR"
        by simp
      have "CHR ''S'' \<notin> set x" "CHR ''S'' \<notin> set y"
        using "3.prems" \<open>q = y # ys\<close> by (auto simp: plain_component_def)
      then have xy: "x = y \<and> join (x2 # xs) SEPARATOR = join (y2 # zs) SEPARATOR"
        using e by (intro separated_eq)
      have "x2 # xs = y2 # zs"
        using "3.IH"(2) [of "y2 # zs"] "3.prems" \<open>q = y # ys\<close> Cons xy by simp
      with xy \<open>q = y # ys\<close> Cons show ?thesis by simp
    qed
  qed
qed

lemma find_append_cases:
  "find P (xs @ ys) = (case find P xs of None \<Rightarrow> find P ys | Some x \<Rightarrow> Some x)"
  by (induction xs) auto

section \<open>Facts about the notification loop\<close>

lemma for_of_call_state: "fst (for_of_call call xs w) = fold call xs w"
  by (induction xs arbitrary: w) (simp_all add: split_beta)

lemma for_of_call_callbacks: "map fst (snd (for_of_call call xs w)) = xs"
  by (induction xs arbitrary: w) (simp_all add: split_beta)

lemma for_of_call_length: "length (snd (for_of_call call xs w)) = length xs"
  by (induction xs arbitrary: w) (simp_all add: split_beta)

lemma for_of_call_nth:
  "i < length xs \<Longrightarrow> snd (for_of_call call xs w) ! i = (xs ! i, fold call (take i xs) w)"
proof (induction xs arbitrary: w i)
  case Nil
  then show ?case by simp
next
  case (Cons x xs)
  show ?case
  proof (cases i)
    case 0
    then show ?thesis by (simp add: split_beta)
  next
    case (Suc k)
    with Cons.prems have "k < length xs" by simp
    from Cons.IH [OF this, of "call x w"] Suc show ?thesis
      by (simp add: split_beta)
  qed
qed

lemma perform_eq:
  "perform ext call m this = for_of_call call (subscribers this) (mutated ext m this)"
  by (cases m)
     (simp_all add: perform_def mutated_def appended_def registerCustomTypeModel_def
        registerCustomTypeModels_def registerSharedSliceModel_def registerSharedSliceModels_def
        registerTypePaths_def registerDocument_def registerDocuments_def notifySubscribers_def
        Let_def split_beta)

lemma only_reads_fold:
  assumes "only_reads call"
  shows "fold call fs w = w\<lparr>outside := outside (fold call fs w)\<rparr>"
proof (induction fs arbitrary: w)
  case Nil
  show ?case by simp
next
  case (Cons f fs)
  have a: "call f w = w\<lparr>outside := outside (call f w)\<rparr>"
    using assms unfolding only_reads_def by blast
  have "fold call (f # fs) w = fold call fs (call f w)" by simp
  also have "\<dots> = (call f w)\<lparr>outside := outside (fold call fs (call f w))\<rparr>"
    using Cons.IH [of "call f w"] .
  also have "\<dots> = w\<lparr>outside := outside (fold call fs (call f w))\<rparr>"
    by (subst a) simp
  finally show ?case by simp
qed

lemma for_of_call_set:
  "(f, w') \<in> set (snd (for_of_call call xs w)) \<Longrightarrow>
     \<exists>i < length xs. f = xs ! i \<and> w' = fold call (take i xs) w"
proof -
  assume "(f, w') \<in> set (snd (for_of_call call xs w))"
  then obtain i where i: "i < length (snd (for_of_call call xs w))"
      and e: "snd (for_of_call call xs w) ! i = (f, w')"
    by (auto simp: in_set_conv_nth)
  from i have "i < length xs" by (simp add: for_of_call_length)
  with e for_of_call_nth [of i xs call w] show ?thesis by auto
qed

lemma length_filter_neq:
  "length (filter (\<lambda>g. g \<noteq> f) fs) = length fs - count_list fs f"
proof (induction fs)
  case Nil
  show ?case by simp
next
  case (Cons g fs)
  have "count_list fs f \<le> length fs" by (rule count_le_length)
  with Cons show ?case by auto
qed

lemma prefix_filter_iff:
  "prefix xs (filter P xs) \<longleftrightarrow> (\<forall>x \<in> set xs. P x)"
proof
  assume p: "prefix xs (filter P xs)"
  then have "length xs \<le> length (filter P xs)" by (rule prefix_length_le)
  then have "length (filter P xs) = length xs"
    using length_filter_le [of P xs] by simp
  then show "\<forall>x \<in> set xs. P x"
    by (metis filter_True filter_id_conv length_filter_less less_irrefl)
next
  assume "\<forall>x \<in> set xs. P x"
  then show "prefix xs (filter P xs)" by simp
qed

lemma only_appends_fold:
  assumes "only_appends field call"
  shows "prefix (field w) (field (fold call fs w))"
proof (induction fs arbitrary: w)
  case Nil
  show ?case by simp
next
  case (Cons f fs)
  have "prefix (field w) (field (call f w))"
    using assms unfolding only_appends_def by blast
  moreover have "prefix (field (call f w)) (field (fold call fs (call f w)))"
    by (rule Cons.IH)
  ultimately show ?case by (auto intro: prefix_order.trans)
qed

lemma perform_callbacks: "map fst (snd (perform ext call m this)) = subscribers this"
  by (simp add: perform_eq for_of_call_callbacks)

lemma perform_state: "fst (perform ext call m this) = fold call (subscribers this) (mutated ext m this)"
  by (simp add: perform_eq for_of_call_state)

lemma subscribers_fold_subscribe:
  "subscribers (fold subscribe fs this) = subscribers this @ fs"
  by (induction fs arbitrary: this) (simp_all add: subscribe_def)

lemma make_subscription_calls_field:
  "\<exists>g. \<forall>w :: ('a, 't, 'lr, 'ip, 'hs, 'n, 'e) Runtime.
         make_subscription_calls cs w = w\<lparr>subscribers := g (subscribers w)\<rparr>"
proof (induction cs)
  case Nil
  have "\<forall>w :: ('a, 't, 'lr, 'ip, 'hs, 'n, 'e) Runtime.
          make_subscription_calls [] w = w\<lparr>subscribers := id (subscribers w)\<rparr>"
    by simp
  then show ?case by blast
next
  case (Cons c cs)
  then obtain g where g: "\<And>w :: ('a, 't, 'lr, 'ip, 'hs, 'n, 'e) Runtime.
      make_subscription_calls cs w = w\<lparr>subscribers := g (subscribers w)\<rparr>"
    by blast
  show ?case
  proof (cases c)
    case (Subscribe f)
    have "\<forall>w :: ('a, 't, 'lr, 'ip, 'hs, 'n, 'e) Runtime.
            make_subscription_calls (c # cs) w
              = w\<lparr>subscribers := (\<lambda>s. g (s @ [f])) (subscribers w)\<rparr>"
      by (simp add: Subscribe g subscribe_def)
    then show ?thesis by (rule exI [where x = "\<lambda>s. g (s @ [f])"])
  next
    case (Unsubscribe f)
    have "\<forall>w :: ('a, 't, 'lr, 'ip, 'hs, 'n, 'e) Runtime.
            make_subscription_calls (c # cs) w
              = w\<lparr>subscribers := (\<lambda>s. g (filter (\<lambda>r. r \<noteq> f) s)) (subscribers w)\<rparr>"
      by (simp add: Unsubscribe g unsubscribe_def)
    then show ?thesis by (rule exI [where x = "\<lambda>s. g (filter (\<lambda>r. r \<noteq> f) s)"])
  qed
qed

lemma fold_subscription_calls:
  "\<exists>g. \<forall>w :: ('a, 't, 'lr, 'ip, 'hs, 'n, 'e) Runtime.
         fold (\<lambda>f. make_subscription_calls (script f)) fs w = w\<lparr>subscribers := g (subscribers w)\<rparr>"
proof (induction fs)
  case Nil
  have "\<forall>w :: ('a, 't, 'lr, 'ip, 'hs, 'n, 'e) Runtime.
          fold (\<lambda>f. make_subscription_calls (script f)) [] w = w\<lparr>subscribers := id (subscribers w)\<rparr>"
    by simp
  then show ?case by blast
next
  case (Cons f fs)
  then obtain g where g: "\<And>w :: ('a, 't, 'lr, 'ip, 'hs, 'n, 'e) Runtime.
      fold (\<lambda>f. make_subscription_calls (script f)) fs w = w\<lparr>subscribers := g (subscribers w)\<rparr>"
    by blast
  obtain h where h: "\<And>w :: ('a, 't, 'lr, 'ip, 'hs, 'n, 'e) Runtime.
      make_subscription_calls (script f) w = w\<lparr>subscribers := h (subscribers w)\<rparr>"
    using make_subscription_calls_field [of "script f"] by blast
  have "\<forall>w :: ('a, 't, 'lr, 'ip, 'hs, 'n, 'e) Runtime.
          fold (\<lambda>f. make_subscription_calls (script f)) (f # fs) w
            = w\<lparr>subscribers := (\<lambda>s. g (h s)) (subscribers w)\<rparr>"
  proof
    fix w :: "('a, 't, 'lr, 'ip, 'hs, 'n, 'e) Runtime"
    have "fold (\<lambda>f. make_subscription_calls (script f)) (f # fs) w
            = fold (\<lambda>f. make_subscription_calls (script f)) fs (make_subscription_calls (script f) w)"
      by simp
    also have "\<dots> = (make_subscription_calls (script f) w)
                        \<lparr>subscribers := g (subscribers (make_subscription_calls (script f) w))\<rparr>"
      by (rule g)
    also have "\<dots> = w\<lparr>subscribers := g (h (subscribers w))\<rparr>"
      by (subst (1 2) h) simp
    finally show "fold (\<lambda>f. make_subscription_calls (script f)) (f # fs) w
            = w\<lparr>subscribers := (\<lambda>s. g (h s)) (subscribers w)\<rparr>" by simp
  qed
  then show ?case by (rule exI [where x = "\<lambda>s. g (h s)"])
qed

section \<open>Facts about JSON.stringify\<close>

declare decimal.simps [simp del]

lemma decimal_small: "n < 10 \<Longrightarrow> decimal n = [hexdigit n]"
  by (subst decimal.simps) simp

lemma decimal_large: "\<not> n < 10 \<Longrightarrow> decimal n = decimal (n div 10) @ [hexdigit (n mod 10)]"
  by (subst decimal.simps) simp

lemma hexdigit_inject:
  assumes "a < 16" "b < 16" "hexdigit a = hexdigit b"
  shows "a = b"
proof -
  have d: "distinct ''0123456789abcdef''" by simp
  have l: "length ''0123456789abcdef'' = 16" by simp
  from assms have "''0123456789abcdef'' ! a = ''0123456789abcdef'' ! b"
    by (simp add: hexdigit_def)
  with d l assms(1,2) show ?thesis
    by (metis nth_eq_iff_index_eq)
qed

lemma hexdigit_is_digit: "n < 10 \<Longrightarrow> is_digit (hexdigit n)"
proof -
  assume "n < 10"
  then have "n \<in> {0, 1, 2, 3, 4, 5, 6, 7, 8, 9}" by auto
  then show ?thesis
    by (auto simp: hexdigit_def is_digit_def)
qed

lemma decimal_digits: "decimal n \<noteq> [] \<and> (\<forall>c \<in> set (decimal n). is_digit c)"
proof (induction n rule: decimal.induct)
  case (1 n)
  show ?case
  proof (cases "n < 10")
    case True
    then show ?thesis by (simp add: decimal_small hexdigit_is_digit)
  next
    case False
    with 1 have "decimal (n div 10) \<noteq> [] \<and> (\<forall>c \<in> set (decimal (n div 10)). is_digit c)"
      by simp
    moreover have "is_digit (hexdigit (n mod 10))" by (simp add: hexdigit_is_digit)
    moreover have "decimal n = decimal (n div 10) @ [hexdigit (n mod 10)]"
      using False by (rule decimal_large)
    ultimately show ?thesis by auto
  qed
qed

lemma decimal_inject: "decimal a = decimal b \<Longrightarrow> a = b"
proof (induction a arbitrary: b rule: decimal.induct)
  case (1 n)
  show ?case
  proof (cases "n < 10")
    case small: True
    show ?thesis
    proof (cases "b < 10")
      case True
      with small "1.prems" have "hexdigit n = hexdigit b" by (simp add: decimal_small)
      with small True show ?thesis by (intro hexdigit_inject) auto
    next
      case False
      then have "decimal b = decimal (b div 10) @ [hexdigit (b mod 10)]" by (rule decimal_large)
      moreover have "decimal (b div 10) \<noteq> []" using decimal_digits by blast
      ultimately have "length (decimal b) \<ge> 2"
        by (cases "decimal (b div 10)") auto
      moreover have "length (decimal n) = 1" using small by (simp add: decimal_small)
      ultimately show ?thesis using "1.prems" by simp
    qed
  next
    case large: False
    then have n: "decimal n = decimal (n div 10) @ [hexdigit (n mod 10)]" by (rule decimal_large)
    show ?thesis
    proof (cases "b < 10")
      case True
      have "decimal (n div 10) \<noteq> []" using decimal_digits by blast
      with n have "length (decimal n) \<ge> 2"
        by (cases "decimal (n div 10)") auto
      moreover have "length (decimal b) = 1" using True by (simp add: decimal_small)
      ultimately show ?thesis using "1.prems" by simp
    next
      case False
      then have b: "decimal b = decimal (b div 10) @ [hexdigit (b mod 10)]" by (rule decimal_large)
      from n b "1.prems" have e: "decimal (n div 10) = decimal (b div 10)"
        and h: "hexdigit (n mod 10) = hexdigit (b mod 10)" by simp_all
      from "1.IH" [OF large e] have "n div 10 = b div 10" .
      moreover from h have "n mod 10 = b mod 10"
        by (intro hexdigit_inject) auto
      ultimately show ?thesis by (metis div_mult_mod_eq)
    qed
  qed
qed

lemma decimal_head: "\<exists>d ds. decimal n = d # ds \<and> is_digit d"
  using decimal_digits [of n] by (cases "decimal n") auto

lemma is_digit_number_char: "is_digit c \<Longrightarrow> number_char c"
  by (auto simp: is_digit_def number_char_def)

lemma plain_decimal_inject:
  assumes "plain_decimal i = plain_decimal j"
  shows "i = j"
proof -
  have mixed: False if "CHR ''-'' # x = decimal b" for x b
  proof -
    obtain d ds where "decimal b = d # ds" "is_digit d" using decimal_head by blast
    with that show False by (auto simp: is_digit_def)
  qed
  show ?thesis
  proof (cases "i < 0")
    case ni: True
    show ?thesis
    proof (cases "j < 0")
      case True
      with ni assms have "decimal (nat (- i)) = decimal (nat (- j))"
        by (simp add: plain_decimal_def)
      then have "nat (- i) = nat (- j)" by (rule decimal_inject)
      with ni True show ?thesis by linarith
    next
      case False
      with ni assms have "CHR ''-'' # decimal (nat (- i)) = decimal (nat j)"
        by (simp add: plain_decimal_def)
      then show ?thesis using mixed by blast
    qed
  next
    case pi: False
    show ?thesis
    proof (cases "j < 0")
      case True
      with pi assms have "CHR ''-'' # decimal (nat (- j)) = decimal (nat i)"
        by (simp add: plain_decimal_def)
      then show ?thesis using mixed by blast
    next
      case False
      with pi assms have "decimal (nat i) = decimal (nat j)"
        by (simp add: plain_decimal_def)
      then have "nat i = nat j" by (rule decimal_inject)
      with pi False show ?thesis by linarith
    qed
  qed
qed

lemma plain_decimal_number_texts: "number_texts plain_decimal"
proof -
  have "inj plain_decimal"
    by (rule injI) (rule plain_decimal_inject)
  moreover have "plain_decimal i \<noteq> [] \<and> (\<forall>c \<in> set (plain_decimal i). number_char c)" for i
  proof -
    have d: "decimal n \<noteq> [] \<and> (\<forall>c \<in> set (decimal n). number_char c)" for n
      using decimal_digits [of n] is_digit_number_char by blast
    have m: "number_char CHR ''-''" by (simp add: number_char_def)
    show ?thesis
      using d [of "nat i"] d [of "nat (- i)"] m by (simp add: plain_decimal_def)
  qed
  ultimately show ?thesis by (simp add: number_texts_def)
qed

lemma number_then_delimiter:
  assumes "\<forall>c \<in> set xs. number_char c" "\<forall>c \<in> set ys. number_char c"
    and "delimited r" "delimited s" "xs @ r = ys @ s"
  shows "xs = ys \<and> r = s"
  using assms
proof (induction xs arbitrary: ys)
  case Nil
  show ?case
  proof (cases ys)
    case Nil
    with Nil.prems show ?thesis by simp
  next
    case (Cons y ys')
    with Nil.prems have "number_char y" "r = y # ys' @ s" by auto
    with Nil.prems(3) show ?thesis
      by (auto simp: delimited_def number_char_def)
  qed
next
  case (Cons x xs)
  show ?case
  proof (cases ys)
    case Nil
    with Cons.prems have "number_char x" "s = x # xs @ r" by auto
    with Cons.prems(4) show ?thesis
      by (auto simp: delimited_def number_char_def)
  next
    case (Cons y ys')
    with Cons.prems Cons.IH [of ys'] show ?thesis by auto
  qed
qed


lemma control_char_inject:
  fixes c1 c2 :: char
  assumes "of_char c1 < (0x20 :: nat)" "of_char c2 < (0x20 :: nat)"
    and "hexdigit (of_char c1 div 16) = hexdigit (of_char c2 div 16)"
    and "hexdigit (of_char c1 mod 16) = hexdigit (of_char c2 mod 16)"
  shows "c1 = c2"
proof -
  let ?a = "of_char c1 :: nat" and ?b = "of_char c2 :: nat"
  have "?a div 16 = ?b div 16"
    using assms(1,2,3) by (intro hexdigit_inject) auto
  moreover have "?a mod 16 = ?b mod 16"
    using assms(4) by (intro hexdigit_inject) auto
  ultimately have "?a = ?b" by (metis div_mult_mod_eq)
  then show ?thesis by simp
qed

lemma QuoteJSONChar_prefix_code:
  assumes "QuoteJSONChar c1 @ x = QuoteJSONChar c2 @ y"
  shows "c1 = c2 \<and> x = y"
  using assms control_char_inject [of c1 c2]
  by (auto simp: QuoteJSONChar_def split: if_splits)

lemma QuoteJSONChar_no_quote: "QuoteJSONChar c @ x \<noteq> CHR 0x22 # y"
  by (auto simp: QuoteJSONChar_def split: if_splits)


lemma quoted_body_eq:
  "concat (map QuoteJSONChar s1) @ CHR 0x22 # r1 = concat (map QuoteJSONChar s2) @ CHR 0x22 # r2
   \<Longrightarrow> s1 = s2 \<and> r1 = r2"
proof (induction s1 arbitrary: s2)
  case Nil
  show ?case
  proof (cases s2)
    case Nil
    with Nil.prems show ?thesis by simp
  next
    case (Cons c cs)
    with Nil.prems
    have "QuoteJSONChar c @ (concat (map QuoteJSONChar cs) @ CHR 0x22 # r2) = CHR 0x22 # r1"
      by simp
    then show ?thesis using QuoteJSONChar_no_quote by blast
  qed
next
  case (Cons c cs)
  show ?case
  proof (cases s2)
    case Nil
    with Cons.prems
    have "QuoteJSONChar c @ (concat (map QuoteJSONChar cs) @ CHR 0x22 # r1) = CHR 0x22 # r2"
      by simp
    then show ?thesis using QuoteJSONChar_no_quote by blast
  next
    case (Cons d ds)
    with Cons.prems
    have "QuoteJSONChar c @ (concat (map QuoteJSONChar cs) @ CHR 0x22 # r1)
        = QuoteJSONChar d @ (concat (map QuoteJSONChar ds) @ CHR 0x22 # r2)"
      by simp
    then have "c = d"
      and "concat (map QuoteJSONChar cs) @ CHR 0x22 # r1
           = concat (map QuoteJSONChar ds) @ CHR 0x22 # r2"
      using QuoteJSONChar_prefix_code by blast+
    with Cons.IH [of ds] Cons show ?thesis by simp
  qed
qed

lemma QuoteJSONString_eq:
  "QuoteJSONString s1 @ r1 = QuoteJSONString s2 @ r2 \<Longrightarrow> s1 = s2 \<and> r1 = r2"
  using quoted_body_eq [of s1 r1 s2 r2] by (simp add: QuoteJSONString_def)

lemma join_commas: "join (x # xs) '','' = x @ concat (map (\<lambda>y. CHR '','' # y) xs)"
  by (induction xs arbitrary: x) simp_all

lemma join_comma_separated: "join (map f xs) '','' = comma_separated f xs"
  by (cases xs) (simp_all add: comma_separated_def join_commas comp_def del: join.simps(2,3))

lemma json_text_simps:
  "json_text ts JNull = ''null''"
  "json_text ts (JBoolean b) = (if b then ''true'' else ''false'')"
  "json_text ts (JNumber (Finite x)) = ts x"
  "json_text ts (JString s) = QuoteJSONString s"
  by (simp_all add: json_text_def)

lemma json_text_array:
  "json_text ts (JArray elements) = CHR ''['' # comma_separated (json_text ts) elements @ '']''"
proof -
  have "(\<lambda>v. case SerializeJSONProperty ts v of None \<Rightarrow> ''null'' | Some str \<Rightarrow> str)
          = json_text ts"
    by (rule ext) (simp add: json_text_def)
  then show ?thesis
    by (simp add: json_text_def [of ts "JArray elements"] join_comma_separated)
qed

lemma is_JSON_serializes: "is_JSON v \<Longrightarrow> SerializeJSONProperty ts v = Some (json_text ts v)"
  by (cases v) (simp_all add: json_text_def)

lemma json_text_object:
  assumes "is_JSON (JObject properties)"
  shows "json_text ts (JObject properties)
           = CHR ''{'' # comma_separated (member_text ts) properties @ ''}''"
proof -
  have "concat (map (\<lambda>(k, v). case SerializeJSONProperty ts v of
                                  None \<Rightarrow> []
                                | Some str \<Rightarrow> [QuoteJSONString k @ '':'' @ str]) ps)
          = map (member_text ts) ps" if "list_all (\<lambda>(k, v). is_JSON v) ps" for ps
    using that
    by (induction ps) (auto simp: member_text_def is_JSON_serializes)
  with assms show ?thesis
    by (simp add: json_text_def join_comma_separated)
qed


lemma json_text_head:
  assumes "number_texts ts" "is_JSON v"
  shows "\<exists>c cs. json_text ts v = c # cs \<and> c \<in> first_chars v"
proof (cases v)
  case (JNumber n)
  with assms(2) obtain x where n: "n = Finite x" by (cases n) auto
  from assms(1) have "ts x \<noteq> []" and "\<forall>c \<in> set (ts x). number_char c"
    by (simp_all add: number_texts_def)
  then obtain d ds where "ts x = d # ds" "number_char d"
    by (cases "ts x") auto
  with JNumber n show ?thesis
    by (simp add: json_text_simps number_char_def)
next
  case (JObject properties)
  with assms(2) show ?thesis by (simp add: json_text_object)
qed (use assms(2) in \<open>auto simp: json_text_simps json_text_array QuoteJSONString_def\<close>)

lemma delimited_simps:
  "delimited []" "delimited (CHR '','' # r)" "delimited (CHR '']'' # r)" "delimited (CHR ''}'' # r)"
  by (simp_all add: delimited_def)

lemma comma_separated_tail_eq:
  assumes "\<forall>x \<in> set xs. \<forall>y \<in> set ys. \<forall>r s. delimited r \<longrightarrow> delimited s
              \<longrightarrow> f x @ r = f y @ s \<longrightarrow> x = y \<and> r = s"
    and "cl = CHR '']'' \<or> cl = CHR ''}''"
    and "concat (map (\<lambda>x. CHR '','' # f x) xs) @ cl # r
         = concat (map (\<lambda>y. CHR '','' # f y) ys) @ cl # s"
  shows "xs = ys \<and> r = s"
  using assms
proof (induction xs arbitrary: ys)
  case Nil
  then show ?case by (cases ys) auto
next
  case (Cons x xs)
  show ?case
  proof (cases ys)
    case Nil
    with Cons.prems show ?thesis by auto
  next
    case (Cons y ys')
    let ?t = "concat (map (\<lambda>x. CHR '','' # f x) xs) @ cl # r"
    let ?u = "concat (map (\<lambda>y. CHR '','' # f y) ys') @ cl # s"
    from Cons Cons.prems(3) have e: "f x @ ?t = f y @ ?u" by simp
    have "delimited ?t" using Cons.prems(2) by (cases xs) (auto simp: delimited_simps)
    moreover have "delimited ?u" using Cons.prems(2) by (cases ys') (auto simp: delimited_simps)
    ultimately have xy: "x = y \<and> ?t = ?u"
      using Cons.prems(1) Cons e by simp
    have "\<forall>x \<in> set xs. \<forall>y \<in> set ys'. \<forall>r s. delimited r \<longrightarrow> delimited s
              \<longrightarrow> f x @ r = f y @ s \<longrightarrow> x = y \<and> r = s"
      using Cons.prems(1) Cons by simp
    moreover have "?t = ?u" using xy by simp
    ultimately have "xs = ys' \<and> r = s"
      using Cons.IH [of ys'] Cons.prems(2) by blast
    with xy Cons show ?thesis by simp
  qed
qed

lemma comma_separated_closed_eq:
  assumes step: "\<forall>x \<in> set xs. \<forall>y \<in> set ys. \<forall>r s. delimited r \<longrightarrow> delimited s
              \<longrightarrow> f x @ r = f y @ s \<longrightarrow> x = y \<and> r = s"
    and cl: "cl = CHR '']'' \<or> cl = CHR ''}''"
    and heads: "\<forall>x \<in> set xs \<union> set ys. \<forall>t u. f x @ t \<noteq> cl # u"
    and eq: "comma_separated f xs @ cl # r = comma_separated f ys @ cl # s"
  shows "xs = ys \<and> r = s"
proof (cases xs)
  case Nil
  show ?thesis
  proof (cases ys)
    case Nil
    with \<open>xs = []\<close> eq show ?thesis by (simp add: comma_separated_def)
  next
    case (Cons y ys')
    with \<open>xs = []\<close> eq
    have "f y @ (concat (map (\<lambda>y. CHR '','' # f y) ys') @ cl # s) = cl # r"
      by (simp add: comma_separated_def)
    with heads Cons show ?thesis by simp
  qed
next
  case (Cons x xs')
  show ?thesis
  proof (cases ys)
    case Nil
    with Cons eq
    have "f x @ (concat (map (\<lambda>y. CHR '','' # f y) xs') @ cl # r) = cl # s"
      by (simp add: comma_separated_def)
    with heads Cons show ?thesis by simp
  next
    case ys: (Cons y ys')
    let ?t = "concat (map (\<lambda>x. CHR '','' # f x) xs') @ cl # r"
    let ?u = "concat (map (\<lambda>y. CHR '','' # f y) ys') @ cl # s"
    from Cons ys eq have e: "f x @ ?t = f y @ ?u" by (simp add: comma_separated_def)
    have "delimited ?t" using cl by (cases xs') (auto simp: delimited_simps)
    moreover have "delimited ?u" using cl by (cases ys') (auto simp: delimited_simps)
    ultimately have xy: "x = y \<and> ?t = ?u"
      using step Cons ys e by simp
    have "\<forall>x \<in> set xs'. \<forall>y \<in> set ys'. \<forall>r s. delimited r \<longrightarrow> delimited s
              \<longrightarrow> f x @ r = f y @ s \<longrightarrow> x = y \<and> r = s"
      using step Cons ys by simp
    moreover have "?t = ?u" using xy by simp
    ultimately have "xs' = ys' \<and> r = s"
      using comma_separated_tail_eq [of xs' ys' f cl r s] cl by blast
    with xy Cons ys show ?thesis by simp
  qed
qed


lemma first_chars_not_delimiter:
  "c \<in> first_chars v \<Longrightarrow> c \<noteq> CHR '','' \<and> c \<noteq> CHR '']'' \<and> c \<noteq> CHR ''}''"
  by (cases v) auto

lemma json_text_not_delimiter:
  assumes "number_texts ts" "is_JSON v"
  shows "json_text ts v @ t \<noteq> CHR '']'' # u" "json_text ts v @ t \<noteq> CHR ''}'' # u"
  using json_text_head [OF assms] first_chars_not_delimiter [of _ v] by auto

lemma same_first_char:
  assumes "number_texts ts" "is_JSON v1" "is_JSON v2"
    and "json_text ts v1 @ r = json_text ts v2 @ s"
  shows "\<exists>c. c \<in> first_chars v1 \<and> c \<in> first_chars v2"
  using json_text_head [OF assms(1,2)] json_text_head [OF assms(1,3)] assms(4) by auto

lemma number_text_unique:
  assumes "number_texts ts" "delimited r" "delimited s"
    and "json_text ts (JNumber (Finite x)) @ r = json_text ts (JNumber (Finite y)) @ s"
  shows "x = y \<and> r = s"
proof -
  have chars: "\<forall>c \<in> set (ts z). number_char c" for z
    using assms(1) by (simp add: number_texts_def)
  from assms(4) have "ts x @ r = ts y @ s" by (simp add: json_text_simps)
  then have "ts x = ts y \<and> r = s"
    using number_then_delimiter [OF chars chars assms(2,3)] by blast
  moreover have "inj ts" using assms(1) by (simp add: number_texts_def)
  ultimately show ?thesis by (simp add: inj_eq)
qed

lemma json_text_unique:
  assumes nt: "number_texts ts"
  shows "is_JSON v1 \<Longrightarrow> is_JSON v2 \<Longrightarrow> delimited r \<Longrightarrow> delimited s
     \<Longrightarrow> json_text ts v1 @ r = json_text ts v2 @ s \<Longrightarrow> v1 = v2 \<and> r = s"
proof (induction v1 arbitrary: v2 r s)
  case JUndefined
  then show ?case by simp
next
  case JNull
  from same_first_char [OF nt JNull.prems(1,2,5)] JNull.prems(2) have "v2 = JNull"
    by (cases v2) auto
  with JNull.prems(5) show ?case by (simp add: json_text_simps)
next
  case (JBoolean b)
  from same_first_char [OF nt JBoolean.prems(1,2,5)] JBoolean.prems(2)
  obtain b' where "v2 = JBoolean b'"
    by (cases v2) auto
  with JBoolean.prems(5) show ?case
    by (cases b; cases b') (simp_all add: json_text_simps)
next
  case (JNumber n)
  from JNumber.prems(1) obtain x where n: "n = Finite x" by (cases n) auto
  from same_first_char [OF nt JNumber.prems(1,2,5)] JNumber.prems(2)
  obtain m where "v2 = JNumber m"
    by (cases v2) auto
  moreover with JNumber.prems(2) obtain y where "m = Finite y" by (cases m) auto
  ultimately show ?case
    using number_text_unique [OF nt JNumber.prems(3,4), of x y] JNumber.prems(5) n by simp
next
  case (JString x)
  from same_first_char [OF nt JString.prems(1,2,5)] JString.prems(2)
  obtain y where "v2 = JString y"
    by (cases v2) auto
  with JString.prems(5) QuoteJSONString_eq [of x r y s] show ?case
    by (simp add: json_text_simps)
next
  case (JArray xs)
  from same_first_char [OF nt JArray.prems(1,2,5)] JArray.prems(2)
  obtain ys where v2: "v2 = JArray ys"
    by (cases v2) auto
  have jx: "\<forall>x \<in> set xs. is_JSON x" using JArray.prems(1) by (simp add: list_all_iff)
  have jy: "\<forall>y \<in> set ys. is_JSON y" using JArray.prems(2) v2 by (simp add: list_all_iff)
  have step: "\<forall>x \<in> set xs. \<forall>y \<in> set ys. \<forall>r s. delimited r \<longrightarrow> delimited s
              \<longrightarrow> json_text ts x @ r = json_text ts y @ s \<longrightarrow> x = y \<and> r = s"
    using JArray.IH jx jy by blast
  have heads: "\<forall>x \<in> set xs \<union> set ys. \<forall>t u. json_text ts x @ t \<noteq> CHR '']'' # u"
    using jx jy json_text_not_delimiter(1) [OF nt] by blast
  have "comma_separated (json_text ts) xs @ CHR '']'' # r = comma_separated (json_text ts) ys @ CHR '']'' # s"
    using JArray.prems(5) v2 by (simp add: json_text_array)
  then have "xs = ys \<and> r = s"
    using comma_separated_closed_eq [OF step _ heads] by blast
  with v2 show ?case by simp
next
  case (JObject ps)
  from same_first_char [OF nt JObject.prems(1,2,5)] JObject.prems(2)
  obtain qs where v2: "v2 = JObject qs"
    by (cases v2) auto
  have jp: "\<forall>p \<in> set ps. is_JSON (snd p)"
    using JObject.prems(1) by (auto simp: list_all_iff)
  have jq: "\<forall>q \<in> set qs. is_JSON (snd q)"
    using JObject.prems(2) v2 by (auto simp: list_all_iff)
  have step: "\<forall>p \<in> set ps. \<forall>q \<in> set qs. \<forall>r s. delimited r \<longrightarrow> delimited s
              \<longrightarrow> member_text ts p @ r = member_text ts q @ s \<longrightarrow> p = q \<and> r = s"
  proof (intro ballI allI impI)
    fix p q r s
    assume p: "p \<in> set ps" and q: "q \<in> set qs" and d: "delimited r" "delimited s"
      and e: "member_text ts p @ r = member_text ts q @ s"
    from e have "QuoteJSONString (fst p) @ (CHR '':'' # json_text ts (snd p) @ r)
               = QuoteJSONString (fst q) @ (CHR '':'' # json_text ts (snd q) @ s)"
      by (simp add: member_text_def)
    then have "fst p = fst q
               \<and> CHR '':'' # json_text ts (snd p) @ r = CHR '':'' # json_text ts (snd q) @ s"
      by (rule QuoteJSONString_eq)
    then have k: "fst p = fst q" and t: "json_text ts (snd p) @ r = json_text ts (snd q) @ s"
      by simp_all
    have "snd p \<in> Basic_BNFs.snds p" by (cases p) simp
    from JObject.IH [OF p this _ _ d t] jp jq p q have "snd p = snd q \<and> r = s" by blast
    with k show "p = q \<and> r = s" by (simp add: prod_eq_iff)
  qed
  have heads: "\<forall>p \<in> set ps \<union> set qs. \<forall>t u. member_text ts p @ t \<noteq> CHR ''}'' # u"
    by (simp add: member_text_def QuoteJSONString_def)
  have "comma_separated (member_text ts) ps @ CHR ''}'' # r = comma_separated (member_text ts) qs @ CHR ''}'' # s"
    using JObject.prems(5) JObject.prems(1,2) v2 by (simp add: json_text_object)
  then have "ps = qs \<and> r = s"
    using comma_separated_closed_eq [OF step _ heads] by blast
  with v2 show ?case by simp
qed

lemma JSON_stringify_inject:
  assumes "number_texts ts" "is_JSON v1" "is_JSON v2"
    and "JSON_stringify ts v1 = JSON_stringify ts v2"
  shows "v1 = v2"
proof -
  from assms have "json_text ts v1 @ [] = json_text ts v2 @ []"
    by (simp add: JSON_stringify_def is_JSON_serializes)
  with assms(1,2,3) show ?thesis
    using json_text_unique [of ts v1 v2 "[]" "[]"] by (simp add: delimited_simps)
qed

section \<open>Looking up a type path\<close>

text \<open>
  C1, as the source has it. \<open>getTypePath\<close> compares the two paths after joining each
  with \<open>__SEPARATOR__\<close>: it returns the first registered TypePath whose joined path
  is the joined query, and \<open>undefined\<close> exactly when no registered TypePath has that
  joined path. Paths that are equal component by component have equal joined
  strings, so a query for a registered path never misses; and of two TypePaths
  registered for the same path the earlier one is returned, when no TypePath
  registered before it has the same joined path. When every component of the query
  and of the registered paths is plain, equal joined strings are equal paths, and
  \<open>getTypePath\<close> returns the first registered TypePath whose path is the query,
  component by component.
\<close>

theorem getTypePath_first_join_equal:
  fixes this :: "('a, 't, 'lr, 'ip, 'hs, 'n, 'e) Runtime"
  shows "(getTypePath this q = None \<longleftrightarrow>
            (\<forall>tp \<in> set (typePaths this). join (path tp) SEPARATOR \<noteq> join q SEPARATOR))
       \<and> (\<forall>tp. getTypePath this q = Some tp \<longleftrightarrow>
            (\<exists>i < length (typePaths this).
                typePaths this ! i = tp
              \<and> join (path tp) SEPARATOR = join q SEPARATOR
              \<and> (\<forall>j < i. join (path (typePaths this ! j)) SEPARATOR \<noteq> join q SEPARATOR)))
       \<and> ((\<exists>tp \<in> set (typePaths this). path tp = q) \<longrightarrow> getTypePath this q \<noteq> None)
       \<and> (\<forall>pre tp1 mid tp2 post.
              typePaths this = pre @ tp1 # mid @ tp2 # post
            \<and> path tp1 = q \<and> path tp2 = q
            \<and> (\<forall>tp \<in> set pre. join (path tp) SEPARATOR \<noteq> join q SEPARATOR)
            \<longrightarrow> getTypePath this q = Some tp1)
       \<and> ((\<forall>c \<in> set q. plain_component c)
            \<and> (\<forall>tp \<in> set (typePaths this). \<forall>c \<in> set (path tp). plain_component c)
            \<longrightarrow> getTypePath this q = find (\<lambda>tp. path tp = q) (typePaths this))"
proof (intro conjI allI impI)
  show "getTypePath this q = None \<longleftrightarrow>
            (\<forall>tp \<in> set (typePaths this). join (path tp) SEPARATOR \<noteq> join q SEPARATOR)"
    by (auto simp: getTypePath_def find_None_iff)
next
  fix tp
  show "getTypePath this q = Some tp \<longleftrightarrow>
            (\<exists>i < length (typePaths this).
                typePaths this ! i = tp
              \<and> join (path tp) SEPARATOR = join q SEPARATOR
              \<and> (\<forall>j < i. join (path (typePaths this ! j)) SEPARATOR \<noteq> join q SEPARATOR))"
    unfolding getTypePath_def find_Some_iff by auto
next
  assume "\<exists>tp \<in> set (typePaths this). path tp = q"
  then show "getTypePath this q \<noteq> None"
    by (auto simp: getTypePath_def find_None_iff)
next
  fix pre tp1 mid tp2 post
  assume "typePaths this = pre @ tp1 # mid @ tp2 # post
            \<and> path tp1 = q \<and> path tp2 = q
            \<and> (\<forall>tp \<in> set pre. join (path tp) SEPARATOR \<noteq> join q SEPARATOR)"
  then show "getTypePath this q = Some tp1"
    by (simp add: getTypePath_def find_skip_prefix)
next
  assume plain: "(\<forall>c \<in> set q. plain_component c)
            \<and> (\<forall>tp \<in> set (typePaths this). \<forall>c \<in> set (path tp). plain_component c)"
  have "join (path tp) SEPARATOR = join q SEPARATOR \<longleftrightarrow> path tp = q"
    if "tp \<in> set (typePaths this)" for tp
    using that plain join_plain_inject [of "path tp" q] by auto
  then show "getTypePath this q = find (\<lambda>tp. path tp = q) (typePaths this)"
    unfolding getTypePath_def by (intro find_cong) auto
qed

text \<open>
  The theorem at a Runtime with four registered TypePaths, two of them for the path
  \<open>page, my_field\<close>: the earlier of the two is returned, and a path that is not
  registered is not found.
\<close>

theorem getTypePath_first_join_equal_witness:
  "typePaths (example_runtime\<lparr>typePaths := example_typePaths\<rparr>)
     = [\<lparr>path = [''page'', ''title''], type = ''Text''\<rparr>]
       @ \<lparr>path = [''page'', ''my_field''], type = ''Select''\<rparr>
       # [\<lparr>path = [''post'', ''body''], type = ''Slices''\<rparr>]
       @ \<lparr>path = [''page'', ''my_field''], type = ''Text''\<rparr> # []
   \<and> join [''page'', ''title''] SEPARATOR \<noteq> join [''page'', ''my_field''] SEPARATOR
   \<and> getTypePath (example_runtime\<lparr>typePaths := example_typePaths\<rparr>) [''page'', ''my_field'']
       = Some \<lparr>path = [''page'', ''my_field''], type = ''Select''\<rparr>
   \<and> getTypePath (example_runtime\<lparr>typePaths := example_typePaths\<rparr>) [''page'', ''missing'']
       = None
   \<and> list_all plain_component [''page'', ''my_field'']
   \<and> list_all (\<lambda>tp. list_all plain_component (path tp)) example_typePaths
   \<and> getTypePath (example_runtime\<lparr>typePaths := example_typePaths\<rparr>) [''page'', ''my_field'']
       = find (\<lambda>tp. path tp = [''page'', ''my_field'']) example_typePaths"
proof -
  let ?rt = "example_runtime\<lparr>typePaths := example_typePaths\<rparr>"
  let ?q = "[''page'', ''my_field'']"
  have split: "typePaths ?rt
     = [\<lparr>path = [''page'', ''title''], type = ''Text''\<rparr>]
       @ \<lparr>path = [''page'', ''my_field''], type = ''Select''\<rparr>
       # [\<lparr>path = [''post'', ''body''], type = ''Slices''\<rparr>]
       @ \<lparr>path = [''page'', ''my_field''], type = ''Text''\<rparr> # []"
    by (simp add: example_typePaths_def)
  have differ: "join [''page'', ''title''] SEPARATOR \<noteq> join ?q SEPARATOR"
    by (simp add: SEPARATOR_def)
  have shadow: "getTypePath ?rt ?q = Some \<lparr>path = ?q, type = ''Select''\<rparr>"
  proof -
    have hyp: "typePaths ?rt
        = [\<lparr>path = [''page'', ''title''], type = ''Text''\<rparr>]
          @ \<lparr>path = ?q, type = ''Select''\<rparr>
          # [\<lparr>path = [''post'', ''body''], type = ''Slices''\<rparr>]
          @ \<lparr>path = ?q, type = ''Text''\<rparr> # []
      \<and> path \<lparr>path = ?q, type = ''Select''\<rparr> = ?q
      \<and> path \<lparr>path = ?q, type = ''Text''\<rparr> = ?q
      \<and> (\<forall>tp \<in> set [\<lparr>path = [''page'', ''title''], type = ''Text''\<rparr>].
             join (path tp) SEPARATOR \<noteq> join ?q SEPARATOR)"
      using split differ by simp
    from getTypePath_first_join_equal [of ?rt ?q]
    have "\<forall>pre tp1 mid tp2 post.
              typePaths ?rt = pre @ tp1 # mid @ tp2 # post
            \<and> path tp1 = ?q \<and> path tp2 = ?q
            \<and> (\<forall>tp \<in> set pre. join (path tp) SEPARATOR \<noteq> join ?q SEPARATOR)
            \<longrightarrow> getTypePath ?rt ?q = Some tp1"
      by (elim conjE)
    then show ?thesis using hyp by (elim allE impE)
  qed
  have missing: "\<forall>tp \<in> set (typePaths ?rt).
                   join (path tp) SEPARATOR \<noteq> join [''page'', ''missing''] SEPARATOR"
    by (simp add: example_typePaths_def SEPARATOR_def)
  have none: "getTypePath ?rt [''page'', ''missing''] = None"
    using getTypePath_first_join_equal [of ?rt "[''page'', ''missing'']"] missing by blast
  have plain_q: "list_all plain_component ?q"
    by (simp add: plain_component_def)
  have plain_tps: "list_all (\<lambda>tp. list_all plain_component (path tp)) example_typePaths"
    by (simp add: example_typePaths_def plain_component_def)
  have "(\<forall>c \<in> set ?q. plain_component c)
      \<and> (\<forall>tp \<in> set (typePaths ?rt). \<forall>c \<in> set (path tp). plain_component c)"
    using plain_q plain_tps by (simp add: list_all_iff)
  with getTypePath_first_join_equal [of ?rt ?q]
  have "getTypePath ?rt ?q = find (\<lambda>tp. path tp = ?q) (typePaths ?rt)"
    by blast
  then have exact: "getTypePath ?rt ?q = find (\<lambda>tp. path tp = ?q) example_typePaths"
    by simp
  show ?thesis using split differ shadow none plain_q plain_tps exact by blast
qed


text \<open>
  C1 as it is stated fails: the one registered path, \<open>a__SEPARATOR__b\<close>, is not equal
  component by component to the query \<open>a, b\<close>, and the lookup finds it.
\<close>

theorem getTypePath_componentwise_counterexample:
  "getTypePath
     (example_runtime\<lparr>typePaths := [\<lparr>path = [''a__SEPARATOR__b''], type = ''Select''\<rparr>]\<rparr>)
     [''a'', ''b'']
   = Some \<lparr>path = [''a__SEPARATOR__b''], type = ''Select''\<rparr>
   \<and> [''a__SEPARATOR__b''] \<noteq> [''a'', ''b'']"
  by (simp add: getTypePath_def SEPARATOR_def)

section \<open>Notification\<close>

text \<open>
  C2. For each of the seven registering methods and every list of subscribed
  callbacks: the method calls the subscribed callbacks, each subscription once, in
  subscription order (the calls it makes are the list \<open>subscribers\<close> held when the
  method was called); the first call is made in the Runtime with the method's nodes
  and TypePaths already appended, and each later call in the state the call before
  it left. So when the callbacks only read the Runtime, every callback sees
  \<open>nodes\<close> and \<open>typePaths\<close> with everything appended.
\<close>

theorem notification_after_mutation:
  fixes this :: "('a, 't, 'lr, 'ip, 'hs, 'n, 'e) Runtime"
  shows "map fst (snd (perform ext call m this)) = subscribers this
       \<and> (\<forall>i < length (subscribers this).
             snd (snd (perform ext call m this) ! i)
               = fold call (take i (subscribers this)) (mutated ext m this))
       \<and> nodes (mutated ext m this) = nodes this @ fst (appended ext m this)
       \<and> typePaths (mutated ext m this) = typePaths this @ snd (appended ext m this)
       \<and> (only_reads call \<longrightarrow>
            (\<forall>(f, w) \<in> set (snd (perform ext call m this)).
               nodes w = nodes this @ fst (appended ext m this)
             \<and> typePaths w = typePaths this @ snd (appended ext m this)))"
proof (intro conjI allI impI)
  show "map fst (snd (perform ext call m this)) = subscribers this"
    by (simp add: perform_eq for_of_call_callbacks)
next
  fix i assume "i < length (subscribers this)"
  then show "snd (snd (perform ext call m this) ! i)
               = fold call (take i (subscribers this)) (mutated ext m this)"
    by (simp add: perform_eq for_of_call_nth)
next
  show "nodes (mutated ext m this) = nodes this @ fst (appended ext m this)"
    by (simp add: mutated_def)
next
  show "typePaths (mutated ext m this) = typePaths this @ snd (appended ext m this)"
    by (simp add: mutated_def)
next
  assume r: "only_reads call"
  show "\<forall>(f, w) \<in> set (snd (perform ext call m this)).
               nodes w = nodes this @ fst (appended ext m this)
             \<and> typePaths w = typePaths this @ snd (appended ext m this)"
  proof (clarify)
    fix f w assume "(f, w) \<in> set (snd (perform ext call m this))"
    then obtain i where "w = fold call (take i (subscribers this)) (mutated ext m this)"
      using for_of_call_set [of f w call "subscribers this" "mutated ext m this"]
      by (auto simp: perform_eq)
    then have "w = (mutated ext m this)\<lparr>outside := outside w\<rparr>"
      using only_reads_fold [OF r] by metis
    then have "nodes w = nodes (mutated ext m this) \<and> typePaths w = typePaths (mutated ext m this)"
      by (metis Runtime.select_convs(1,2) Runtime.surjective Runtime.update_convs(6))
    then show "nodes w = nodes this @ fst (appended ext m this)
             \<and> typePaths w = typePaths this @ snd (appended ext m this)"
      by (simp add: mutated_def)
  qed
qed

text \<open>
  The theorem at a Runtime with the subscribers 3, 1, 3, whose callbacks write their
  own identity to the program state outside, and one call of \<open>registerTypePaths\<close>.
\<close>

theorem notification_after_mutation_witness:
  "only_reads example_call
   \<and> subscribers example_subscribed = [3, 1, 3]
   \<and> map fst (snd (perform example_externals example_call
                     (RegisterTypePaths [\<lparr>path = [''page'', ''title''], type = ''Text''\<rparr>])
                     example_subscribed))
       = [3, 1, 3]
   \<and> map (\<lambda>c. typePaths (snd c))
         (snd (perform example_externals example_call
                 (RegisterTypePaths [\<lparr>path = [''page'', ''title''], type = ''Text''\<rparr>])
                 example_subscribed))
       = replicate 3 [\<lparr>path = [''page'', ''title''], type = ''Text''\<rparr>]
   \<and> snd (snd (perform example_externals example_call
                 (RegisterTypePaths [\<lparr>path = [''page'', ''title''], type = ''Text''\<rparr>])
                 example_subscribed) ! 2)
       = fold example_call [3, 1]
           (mutated example_externals
              (RegisterTypePaths [\<lparr>path = [''page'', ''title''], type = ''Text''\<rparr>])
              example_subscribed)"
proof -
  let ?m = "RegisterTypePaths [\<lparr>path = [''page'', ''title''], type = ''Text''\<rparr>]
              :: (string list, string list, string, string) mutation"
  let ?calls = "snd (perform example_externals example_call ?m example_subscribed)"
  note t = notification_after_mutation [of example_externals example_call ?m example_subscribed]
  have reads: "only_reads example_call"
    by (simp add: only_reads_def example_call_def)
  have subs: "subscribers example_subscribed = [3, 1, 3]"
    by (simp add: example_subscribed_def subscribe_def example_runtime_def createRuntime_def
          constructor_def)
  have before: "typePaths example_subscribed = [] \<and> nodes example_subscribed = []"
    by (simp add: example_subscribed_def subscribe_def example_runtime_def createRuntime_def
          constructor_def)
  from t have order: "map fst ?calls = subscribers example_subscribed"
    by (elim conjE)
  then have len: "length ?calls = 3"
    using subs by (metis length_map length_Cons list.size(3) numeral_3_eq_3)
  from t reads have "\<forall>(f, w) \<in> set ?calls.
      nodes w = nodes example_subscribed @ fst (appended example_externals ?m example_subscribed)
    \<and> typePaths w
        = typePaths example_subscribed @ snd (appended example_externals ?m example_subscribed)"
    by (elim conjE impE)
  then have "\<forall>c \<in> set ?calls. typePaths (snd c) = [\<lparr>path = [''page'', ''title''], type = ''Text''\<rparr>]"
    using before by (auto simp: appended_def)
  then have seen: "map (\<lambda>c. typePaths (snd c)) ?calls
      = replicate 3 [\<lparr>path = [''page'', ''title''], type = ''Text''\<rparr>]"
    using map_const_on_set [of ?calls "\<lambda>c. typePaths (snd c)"] len by simp
  from t have "\<forall>i < length (subscribers example_subscribed).
      snd (?calls ! i)
        = fold example_call (take i (subscribers example_subscribed))
            (mutated example_externals ?m example_subscribed)"
    by (elim conjE)
  then have third: "snd (?calls ! 2)
        = fold example_call [3, 1] (mutated example_externals ?m example_subscribed)"
    using subs by (simp add: numeral_2_eq_2)
  show ?thesis using reads subs order seen third by simp
qed

section \<open>Looking up a node\<close>

text \<open>
  C8. \<open>hasNode(id)\<close> is true exactly when \<open>getNode(id)\<close> returns a node; and
  \<open>getNode(id)\<close> returns a node \<open>n\<close> exactly when \<open>n\<close> is the earliest registered node
  whose \<open>prismicId\<close> is \<open>id\<close>.
\<close>

theorem hasNode_iff_getNode:
  fixes this :: "('a, 't, 'lr, 'ip, 'hs, 'n, 'e) Runtime"
  shows "(hasNode this i \<longleftrightarrow> getNode this i \<noteq> None)
       \<and> (\<forall>n. getNode this i = Some n \<longleftrightarrow>
            (\<exists>k < length (nodes this).
                nodes this ! k = n \<and> prismicId n = i
              \<and> (\<forall>j < k. prismicId (nodes this ! j) \<noteq> i)))"
proof (intro conjI allI)
  show "hasNode this i \<longleftrightarrow> getNode this i \<noteq> None"
    by (auto simp: hasNode_def getNode_def list_ex_iff find_None_iff)
next
  fix n
  show "getNode this i = Some n \<longleftrightarrow>
            (\<exists>k < length (nodes this).
                nodes this ! k = n \<and> prismicId n = i
              \<and> (\<forall>j < k. prismicId (nodes this ! j) \<noteq> i))"
    unfolding getNode_def find_Some_iff by auto
qed

text \<open>
  The theorem at a Runtime with three nodes, two of them with the identity \<open>X2\<close>.
\<close>

theorem hasNode_iff_getNode_witness:
  "hasNode (example_runtime\<lparr>nodes := example_nodes\<rparr>) ''X2''
   \<and> getNode (example_runtime\<lparr>nodes := example_nodes\<rparr>) ''X2''
       = Some \<lparr>prismicId = ''X2'', node_rest = [''post'']\<rparr>
   \<and> (1::nat) < length (nodes (example_runtime\<lparr>nodes := example_nodes\<rparr>))
   \<and> nodes (example_runtime\<lparr>nodes := example_nodes\<rparr>) ! 1
       = \<lparr>prismicId = ''X2'', node_rest = [''post'']\<rparr>
   \<and> prismicId (nodes (example_runtime\<lparr>nodes := example_nodes\<rparr>) ! 0) \<noteq> ''X2''
   \<and> \<not> hasNode (example_runtime\<lparr>nodes := example_nodes\<rparr>) ''X3''
   \<and> getNode (example_runtime\<lparr>nodes := example_nodes\<rparr>) ''X3'' = None"
proof -
  let ?rt = "example_runtime\<lparr>nodes := example_nodes\<rparr>"
  let ?n = "\<lparr>prismicId = ''X2'', node_rest = [''post'']\<rparr>"
  have at: "(1::nat) < length (nodes ?rt) \<and> nodes ?rt ! 1 = ?n \<and> prismicId ?n = ''X2''
            \<and> (\<forall>j < (1::nat). prismicId (nodes ?rt ! j) \<noteq> ''X2'')"
    by (simp add: example_nodes_def)
  from hasNode_iff_getNode [of ?rt "''X2''"]
  have "getNode ?rt ''X2'' = Some ?n \<longleftrightarrow>
            (\<exists>k < length (nodes ?rt).
                nodes ?rt ! k = ?n \<and> prismicId ?n = ''X2''
              \<and> (\<forall>j < k. prismicId (nodes ?rt ! j) \<noteq> ''X2''))"
    by blast
  with at have found: "getNode ?rt ''X2'' = Some ?n" by blast
  with hasNode_iff_getNode [of ?rt "''X2''"] have has: "hasNode ?rt ''X2''" by simp
  have "\<not> hasNode ?rt ''X3''"
    by (simp add: hasNode_def example_nodes_def)
  with hasNode_iff_getNode [of ?rt "''X3''"]
  have absent: "\<not> hasNode ?rt ''X3'' \<and> getNode ?rt ''X3'' = None" by simp
  have first: "prismicId (nodes ?rt ! 0) \<noteq> ''X2''"
    by (simp add: example_nodes_def)
  show ?thesis using at found has absent first by simp
qed

section \<open>Unsubscribing\<close>

text \<open>
  C4, as the source has it. After the callbacks \<open>fs\<close> are subscribed, one after the
  other, and \<open>unsubscribe(f)\<close> is called, a registering method calls the subscribed
  callbacks other than \<open>f\<close>: \<open>unsubscribe\<close> removes every subscription of \<open>f\<close> (it
  compares by reference). On a Runtime with no earlier subscribers that is
  \<open>N - k\<close> calls, for \<open>N\<close> subscriptions of which \<open>k\<close> are of \<open>f\<close>, so \<open>N - 1\<close> when \<open>f\<close> was
  subscribed once. Without the \<open>unsubscribe\<close>, every subscription is called, a
  callback subscribed twice twice.
\<close>

theorem unsubscribe_removes_every_occurrence:
  fixes this :: "('a, 't, 'lr, 'ip, 'hs, 'n, 'e) Runtime"
  shows "map fst (snd (perform ext call m (unsubscribe f (fold subscribe fs this))))
           = filter (\<lambda>g. g \<noteq> f) (subscribers this @ fs)
       \<and> map fst (snd (perform ext call m (fold subscribe fs this))) = subscribers this @ fs
       \<and> (subscribers this = [] \<longrightarrow>
            length (snd (perform ext call m (unsubscribe f (fold subscribe fs this))))
              = length fs - count_list fs f)
       \<and> (subscribers this = [] \<and> count_list fs f = 1 \<longrightarrow>
            length (snd (perform ext call m (unsubscribe f (fold subscribe fs this))))
              = length fs - 1)"
proof -
  let ?calls = "snd (perform ext call m (unsubscribe f (fold subscribe fs this)))"
  have a: "map fst ?calls = filter (\<lambda>g. g \<noteq> f) (subscribers this @ fs)"
    by (simp add: perform_callbacks unsubscribe_def subscribers_fold_subscribe)
  have b: "map fst (snd (perform ext call m (fold subscribe fs this))) = subscribers this @ fs"
    by (simp add: perform_callbacks subscribers_fold_subscribe)
  have "length ?calls = length (filter (\<lambda>g. g \<noteq> f) (subscribers this @ fs))"
    using a by (metis length_map)
  then have c: "subscribers this = [] \<longrightarrow> length ?calls = length fs - count_list fs f"
    by (simp add: length_filter_neq)
  then have d: "subscribers this = [] \<and> count_list fs f = 1 \<longrightarrow> length ?calls = length fs - 1"
    by simp
  show ?thesis using a b c d by blast
qed

text \<open>
  The theorem for the subscriptions 4, 5, 6, 5 and \<open>unsubscribe(4)\<close>.
\<close>

theorem unsubscribe_removes_every_occurrence_witness:
  "subscribers example_runtime = []
   \<and> count_list [4, 5, 6, 5] (4::nat) = 1
   \<and> map fst (snd (perform example_externals example_call (RegisterTypePaths [])
                     (unsubscribe 4 (fold subscribe [4, 5, 6, 5] example_runtime))))
       = [5, 6, 5]
   \<and> length (snd (perform example_externals example_call (RegisterTypePaths [])
                     (unsubscribe 4 (fold subscribe [4, 5, 6, 5] example_runtime))))
       = length [4, 5, 6, 5 :: nat] - 1
   \<and> map fst (snd (perform example_externals example_call (RegisterTypePaths [])
                     (fold subscribe [4, 5, 6, 5] example_runtime)))
       = [4, 5, 6, 5]"
proof -
  have e: "subscribers example_runtime = []"
    by (simp add: example_runtime_def createRuntime_def constructor_def)
  have c: "count_list [4, 5, 6, 5] (4::nat) = 1" by simp
  note t = unsubscribe_removes_every_occurrence
             [of example_externals example_call "RegisterTypePaths []" 4 "[4, 5, 6, 5]"
                 example_runtime]
  from t e have "map fst (snd (perform example_externals example_call (RegisterTypePaths [])
                     (unsubscribe 4 (fold subscribe [4, 5, 6, 5] example_runtime))))
       = [5, 6, 5]" by simp
  moreover from t e c have "length (snd (perform example_externals example_call (RegisterTypePaths [])
                     (unsubscribe 4 (fold subscribe [4, 5, 6, 5] example_runtime))))
       = length [4, 5, 6, 5 :: nat] - 1" by blast
  moreover from t e have "map fst (snd (perform example_externals example_call (RegisterTypePaths [])
                     (fold subscribe [4, 5, 6, 5] example_runtime)))
       = [4, 5, 6, 5]" by simp
  ultimately show ?thesis using e c by blast
qed

text \<open>
  C4 as it is stated fails when the callback was subscribed more than once: after
  the three subscriptions 7, 7, 8 and \<open>unsubscribe(7)\<close>, \<open>registerTypePaths\<close> calls one
  callback, not two.
\<close>

theorem unsubscribe_duplicate_counterexample:
  "map fst (snd (perform example_externals example_call (RegisterTypePaths [])
                   (unsubscribe 7 (subscribe 8 (subscribe 7 (subscribe 7 example_runtime))))))
     = [8]
   \<and> subscribers (subscribe 8 (subscribe 7 (subscribe 7 example_runtime))) = [7, 7, 8]
   \<and> outside (fst (perform example_externals example_call (RegisterTypePaths [])
                   (unsubscribe 7 (subscribe 8 (subscribe 7 (subscribe 7 example_runtime))))))
     = [8]
   \<and> length [8 :: nat] \<noteq> length [7, 7, 8 :: nat] - 1"
  by (simp add: perform_def registerTypePaths_def notifySubscribers_def unsubscribe_def
        subscribe_def example_runtime_def createRuntime_def constructor_def example_call_def)

section \<open>What the operations append\<close>

text \<open>
  C5, as the source has it. \<open>subscribe\<close> appends the callback to \<open>subscribers\<close> and
  leaves \<open>nodes\<close> and \<open>typePaths\<close> as they are. \<open>unsubscribe\<close> leaves \<open>nodes\<close> and
  \<open>typePaths\<close> as they are and removes every subscription of the callback from
  \<open>subscribers\<close>: what \<open>subscribers\<close> held stays a prefix only when the callback was
  not subscribed. A registering method appends to \<open>nodes\<close> and \<open>typePaths\<close>, leaves
  \<open>subscribers\<close> as it is, and then calls the subscribers; when the callbacks only
  append to a sequence, what the sequence held before the method is a prefix of
  what it holds after. The other public methods (\<open>normalize\<close>, \<open>normalizeDocument\<close>,
  \<open>getNode\<close>, \<open>hasNode\<close>, \<open>getTypePath\<close>) assign to no field.
\<close>

theorem append_only_but_for_unsubscribe:
  fixes this :: "('a, 't, 'lr, 'ip, 'hs, 'n, 'e) Runtime"
  shows "nodes (subscribe f this) = nodes this
       \<and> typePaths (subscribe f this) = typePaths this
       \<and> subscribers (subscribe f this) = subscribers this @ [f]
       \<and> nodes (unsubscribe f this) = nodes this
       \<and> typePaths (unsubscribe f this) = typePaths this
       \<and> subscribers (unsubscribe f this) = filter (\<lambda>g. g \<noteq> f) (subscribers this)
       \<and> (prefix (subscribers this) (subscribers (unsubscribe f this))
            \<longleftrightarrow> f \<notin> set (subscribers this))
       \<and> fst (perform ext call m this) = fold call (subscribers this) (mutated ext m this)
       \<and> prefix (nodes this) (nodes (mutated ext m this))
       \<and> prefix (typePaths this) (typePaths (mutated ext m this))
       \<and> subscribers (mutated ext m this) = subscribers this
       \<and> (only_appends nodes call \<longrightarrow> prefix (nodes this) (nodes (fst (perform ext call m this))))
       \<and> (only_appends typePaths call \<longrightarrow>
            prefix (typePaths this) (typePaths (fst (perform ext call m this))))
       \<and> (only_appends subscribers call \<longrightarrow>
            prefix (subscribers this) (subscribers (fst (perform ext call m this))))"
proof -
  have s: "nodes (subscribe f this) = nodes this
       \<and> typePaths (subscribe f this) = typePaths this
       \<and> subscribers (subscribe f this) = subscribers this @ [f]"
    by (simp add: subscribe_def)
  have u: "nodes (unsubscribe f this) = nodes this
       \<and> typePaths (unsubscribe f this) = typePaths this
       \<and> subscribers (unsubscribe f this) = filter (\<lambda>g. g \<noteq> f) (subscribers this)"
    by (simp add: unsubscribe_def)
  have p: "prefix (subscribers this) (subscribers (unsubscribe f this))
            \<longleftrightarrow> f \<notin> set (subscribers this)"
    by (auto simp: unsubscribe_def prefix_filter_iff)
  have m: "prefix (nodes this) (nodes (mutated ext m this))
       \<and> prefix (typePaths this) (typePaths (mutated ext m this))
       \<and> subscribers (mutated ext m this) = subscribers this"
    by (simp add: mutated_def)
  have n: "only_appends nodes call \<longrightarrow> prefix (nodes this) (nodes (fst (perform ext call m this)))"
  proof
    assume "only_appends nodes call"
    then have "prefix (nodes (mutated ext m this)) (nodes (fst (perform ext call m this)))"
      unfolding perform_state by (rule only_appends_fold)
    with m show "prefix (nodes this) (nodes (fst (perform ext call m this)))"
      by (auto intro: prefix_order.trans)
  qed
  have t: "only_appends typePaths call \<longrightarrow>
            prefix (typePaths this) (typePaths (fst (perform ext call m this)))"
  proof
    assume "only_appends typePaths call"
    then have "prefix (typePaths (mutated ext m this)) (typePaths (fst (perform ext call m this)))"
      unfolding perform_state by (rule only_appends_fold)
    with m show "prefix (typePaths this) (typePaths (fst (perform ext call m this)))"
      by (auto intro: prefix_order.trans)
  qed
  have b: "only_appends subscribers call \<longrightarrow>
            prefix (subscribers this) (subscribers (fst (perform ext call m this)))"
  proof
    assume "only_appends subscribers call"
    then have "prefix (subscribers (mutated ext m this))
                 (subscribers (fst (perform ext call m this)))"
      unfolding perform_state by (rule only_appends_fold)
    with m show "prefix (subscribers this) (subscribers (fst (perform ext call m this)))"
      by simp
  qed
  show ?thesis using s u p m n t b perform_state [of ext call m this] by blast
qed

text \<open>
  The theorem for \<open>registerDocument\<close> on a Runtime with three subscribers whose
  callbacks write outside the Runtime only, and for \<open>unsubscribe\<close> of a callback
  that is not subscribed.
\<close>

theorem append_only_but_for_unsubscribe_witness:
  "only_appends nodes example_call
   \<and> only_appends typePaths example_call
   \<and> only_appends subscribers example_call
   \<and> prefix (nodes example_subscribed)
        (nodes (fst (perform example_externals example_call (RegisterDocument example_document)
                       example_subscribed)))
   \<and> prefix (typePaths example_subscribed)
        (typePaths (fst (perform example_externals example_call (RegisterDocument example_document)
                       example_subscribed)))
   \<and> prefix (subscribers example_subscribed)
        (subscribers (fst (perform example_externals example_call (RegisterDocument example_document)
                       example_subscribed)))
   \<and> 9 \<notin> set (subscribers example_subscribed)
   \<and> prefix (subscribers example_subscribed) (subscribers (unsubscribe 9 example_subscribed))
   \<and> nodes (fst (perform example_externals example_call (RegisterDocument example_document)
                       example_subscribed))
       = [\<lparr>prismicId = ''X1'', node_rest = [''page'']\<rparr>]"
proof -
  note t = append_only_but_for_unsubscribe
             [of 9 example_subscribed example_externals example_call
                 "RegisterDocument example_document"]
  have a: "only_appends nodes example_call \<and> only_appends typePaths example_call
           \<and> only_appends subscribers example_call"
    by (simp add: only_appends_def example_call_def)
  have n: "9 \<notin> set (subscribers example_subscribed)"
    by (simp add: example_subscribed_def subscribe_def example_runtime_def createRuntime_def
          constructor_def)
  from t a have p: "prefix (nodes example_subscribed)
        (nodes (fst (perform example_externals example_call (RegisterDocument example_document)
                       example_subscribed)))
   \<and> prefix (typePaths example_subscribed)
        (typePaths (fst (perform example_externals example_call (RegisterDocument example_document)
                       example_subscribed)))
   \<and> prefix (subscribers example_subscribed)
        (subscribers (fst (perform example_externals example_call (RegisterDocument example_document)
                       example_subscribed)))"
    by blast
  from t n have u: "prefix (subscribers example_subscribed)
                      (subscribers (unsubscribe 9 example_subscribed))"
    by blast
  have v: "nodes (fst (perform example_externals example_call (RegisterDocument example_document)
                       example_subscribed))
       = [\<lparr>prismicId = ''X1'', node_rest = [''page'']\<rparr>]"
    by (simp add: perform_def registerDocument_def normalizeDocument_def normalize_def
          notifySubscribers_def example_subscribed_def subscribe_def example_runtime_def
          createRuntime_def constructor_def example_call_def example_externals_def
          example_document_def Let_def)
  show ?thesis using a n p u v by blast
qed

text \<open>
  C5 as it is stated fails for \<open>subscribers\<close>: after \<open>subscribe(1)\<close>, the call
  \<open>unsubscribe(1)\<close> leaves it empty.
\<close>

theorem append_only_counterexample:
  "subscribers (subscribe 1 example_runtime) = [1]
   \<and> subscribers (unsubscribe 1 (subscribe 1 example_runtime)) = []
   \<and> \<not> prefix (subscribers (subscribe 1 example_runtime))
               (subscribers (unsubscribe 1 (subscribe 1 example_runtime)))"
  by (simp add: unsubscribe_def subscribe_def example_runtime_def createRuntime_def
        constructor_def)

section \<open>Registering type paths\<close>

text \<open>
  C9, as the source has it. \<open>registerTypePaths(paths)\<close> assigns \<open>typePaths\<close> with
  \<open>paths\<close> appended, assigns no other field, and then calls the subscribers, in
  order: the state it returns in is what the callbacks made of the Runtime with
  \<open>paths\<close> appended. When the callbacks only read the Runtime, \<open>typePaths\<close>
  afterwards is the old sequence with \<open>paths\<close> appended, and \<open>nodes\<close>,
  \<open>subscribers\<close>, \<open>config\<close> and \<open>nodeHelpers\<close> are what they were; and nothing is
  deduplicated: a second call with the same \<open>paths\<close> appends them again.
\<close>

theorem registerTypePaths_appends_only:
  fixes this :: "('a, 't, 'lr, 'ip, 'hs, 'n, 'e) Runtime"
  shows "after (registerTypePaths call tps this)
           = fold call (subscribers this) (this\<lparr>typePaths := typePaths this @ tps\<rparr>)
       \<and> map fst (notified (registerTypePaths call tps this)) = subscribers this
       \<and> (only_reads call \<longrightarrow>
              typePaths (after (registerTypePaths call tps this)) = typePaths this @ tps
            \<and> nodes (after (registerTypePaths call tps this)) = nodes this
            \<and> subscribers (after (registerTypePaths call tps this)) = subscribers this
            \<and> config (after (registerTypePaths call tps this)) = config this
            \<and> nodeHelpers (after (registerTypePaths call tps this)) = nodeHelpers this
            \<and> typePaths (after (registerTypePaths call tps
                                   (after (registerTypePaths call tps this))))
                = typePaths this @ tps @ tps)"
proof -
  have a: "after (registerTypePaths call tps this)
           = fold call (subscribers this) (this\<lparr>typePaths := typePaths this @ tps\<rparr>)" for this :: "('a, 't, 'lr, 'ip, 'hs, 'n, 'e) Runtime"
    by (simp add: registerTypePaths_def notifySubscribers_def split_beta Let_def for_of_call_state)
  have b: "map fst (notified (registerTypePaths call tps this)) = subscribers this"
    by (simp add: registerTypePaths_def notifySubscribers_def split_beta Let_def for_of_call_callbacks)
  have c: "after (registerTypePaths call tps this)
           = this\<lparr>typePaths := typePaths this @ tps,
                  outside := outside (after (registerTypePaths call tps this))\<rparr>"
    if r: "only_reads call" for this :: "('a, 't, 'lr, 'ip, 'hs, 'n, 'e) Runtime"
    using only_reads_fold [OF r, of "subscribers this" "this\<lparr>typePaths := typePaths this @ tps\<rparr>"]
    by (simp add: a)
  have d: "only_reads call \<longrightarrow>
              typePaths (after (registerTypePaths call tps this)) = typePaths this @ tps
            \<and> nodes (after (registerTypePaths call tps this)) = nodes this
            \<and> subscribers (after (registerTypePaths call tps this)) = subscribers this
            \<and> config (after (registerTypePaths call tps this)) = config this
            \<and> nodeHelpers (after (registerTypePaths call tps this)) = nodeHelpers this
            \<and> typePaths (after (registerTypePaths call tps
                                   (after (registerTypePaths call tps this))))
                = typePaths this @ tps @ tps"
  proof
    assume r: "only_reads call"
    let ?w = "after (registerTypePaths call tps this)"
    have 1: "typePaths ?w = typePaths this @ tps \<and> nodes ?w = nodes this
             \<and> subscribers ?w = subscribers this \<and> config ?w = config this
             \<and> nodeHelpers ?w = nodeHelpers this"
      by (subst c [OF r], simp)+
    have "typePaths (after (registerTypePaths call tps ?w)) = typePaths ?w @ tps"
      by (subst c [OF r]) simp
    with 1 show "typePaths ?w = typePaths this @ tps
            \<and> nodes ?w = nodes this
            \<and> subscribers ?w = subscribers this
            \<and> config ?w = config this
            \<and> nodeHelpers ?w = nodeHelpers this
            \<and> typePaths (after (registerTypePaths call tps ?w)) = typePaths this @ tps @ tps"
      by simp
  qed
  show ?thesis using a [of this] b d by blast
qed

text \<open>
  The theorem for one TypePath registered twice on a Runtime with three
  subscribers.
\<close>

theorem registerTypePaths_appends_only_witness:
  "only_reads example_call
   \<and> typePaths (after (registerTypePaths example_call
                          [\<lparr>path = [''page'', ''title''], type = ''Text''\<rparr>]
                          (after (registerTypePaths example_call
                                    [\<lparr>path = [''page'', ''title''], type = ''Text''\<rparr>]
                                    example_subscribed))))
       = [\<lparr>path = [''page'', ''title''], type = ''Text''\<rparr>,
          \<lparr>path = [''page'', ''title''], type = ''Text''\<rparr>]
   \<and> nodes (after (registerTypePaths example_call
                      [\<lparr>path = [''page'', ''title''], type = ''Text''\<rparr>] example_subscribed))
       = nodes example_subscribed
   \<and> subscribers (after (registerTypePaths example_call
                      [\<lparr>path = [''page'', ''title''], type = ''Text''\<rparr>] example_subscribed))
       = [3, 1, 3]
   \<and> config (after (registerTypePaths example_call
                      [\<lparr>path = [''page'', ''title''], type = ''Text''\<rparr>] example_subscribed))
       = config example_subscribed
   \<and> outside (after (registerTypePaths example_call
                      [\<lparr>path = [''page'', ''title''], type = ''Text''\<rparr>] example_subscribed))
       = [3, 1, 3]"
proof -
  let ?tps = "[\<lparr>path = [''page'', ''title''], type = ''Text''\<rparr>]"
  note t = registerTypePaths_appends_only [of example_call ?tps example_subscribed]
  have r: "only_reads example_call"
    by (simp add: only_reads_def example_call_def)
  have e: "typePaths example_subscribed = [] \<and> subscribers example_subscribed = [3, 1, 3]
           \<and> outside example_subscribed = []"
    by (simp add: example_subscribed_def subscribe_def example_runtime_def createRuntime_def
          constructor_def)
  from t r have f: "typePaths (after (registerTypePaths example_call ?tps
                          (after (registerTypePaths example_call ?tps example_subscribed))))
       = typePaths example_subscribed @ ?tps @ ?tps
   \<and> nodes (after (registerTypePaths example_call ?tps example_subscribed))
       = nodes example_subscribed
   \<and> subscribers (after (registerTypePaths example_call ?tps example_subscribed))
       = subscribers example_subscribed
   \<and> config (after (registerTypePaths example_call ?tps example_subscribed))
       = config example_subscribed"
    by blast
  from t have "after (registerTypePaths example_call ?tps example_subscribed)
           = fold example_call (subscribers example_subscribed)
               (example_subscribed\<lparr>typePaths := typePaths example_subscribed @ ?tps\<rparr>)"
    by blast
  then have o: "outside (after (registerTypePaths example_call ?tps example_subscribed)) = [3, 1, 3]"
    using e by (simp add: example_call_def)
  show ?thesis using r e f o by simp
qed

text \<open>
  C9 as it is stated fails: \<open>subscribers\<close> is not always the same before and
  after the call, because a callback that the call notifies can itself subscribe and
  unsubscribe. With the subscribers 0, 1, 2, where the callback 0 subscribes 5 and
  the callback 1 unsubscribes 2 and 0, \<open>registerTypePaths\<close> returns with the
  subscribers 1, 5.
\<close>

theorem registerTypePaths_frame_counterexample:
  "subscribers (fold subscribe [0, 1, 2] example_runtime) = [0, 1, 2]
   \<and> subscribers
         (after (registerTypePaths (\<lambda>f. make_subscription_calls (example_script f))
                   [\<lparr>path = [''page'', ''title''], type = ''Text''\<rparr>]
                   (fold subscribe [0, 1, 2] example_runtime)))
       = [1, 5]
   \<and> subscribers
         (after (registerTypePaths (\<lambda>f. make_subscription_calls (example_script f))
                   [\<lparr>path = [''page'', ''title''], type = ''Text''\<rparr>]
                   (fold subscribe [0, 1, 2] example_runtime)))
       \<noteq> subscribers (fold subscribe [0, 1, 2] example_runtime)"
  by (simp add: registerTypePaths_def notifySubscribers_def split_beta Let_def for_of_call_state
        example_script_def subscribe_def unsubscribe_def example_runtime_def createRuntime_def
        constructor_def)

section \<open>Registering documents\<close>

text \<open>
  C7. \<open>registerDocument(document)\<close> returns what \<open>normalize\<close> gives for the document
  at the path that holds the document's type only, with the two lookups and the
  configuration of the Runtime as they are before the call. It assigns \<open>nodes\<close>
  with that node appended and then calls the subscribers, so when the callbacks
  only read the Runtime, \<open>nodes\<close> afterwards is the old sequence with exactly that
  node at its end. \<open>registerDocuments\<close> does the same for each document, in the
  order of its argument: every document is normalized against the Runtime as it is
  before the call, and the nodes are appended together.
\<close>

theorem registerDocument_appends_normalized:
  fixes this :: "('a, 't, 'lr, 'ip, 'hs, 'n, 'e) Runtime"
  shows "returned (registerDocument nf call document this)
           = nf
               \<lparr> value' = document,
                 path' = [PrismicDocument.type document],
                 getNode' = getNode this,
                 getTypePath' = getTypePath this,
                 nodeHelpers' = nodeHelpers this,
                 linkResolver' = linkResolver (config this),
                 htmlSerializer' = htmlSerializer (config this),
                 imageImgixParams' = imageImgixParams (config this),
                 imagePlaceholderImgixParams' = imagePlaceholderImgixParams (config this),
                 transformFieldName' = transformFieldName (config this) \<rparr>
       \<and> after (registerDocument nf call document this)
           = fold call (subscribers this)
               (this\<lparr>nodes := nodes this
                                 @ [returned (registerDocument nf call document this)]\<rparr>)
       \<and> (only_reads call \<longrightarrow>
            nodes (after (registerDocument nf call document this))
              = nodes this @ [returned (registerDocument nf call document this)])
       \<and> returned (registerDocuments nf call documents this)
           = map (\<lambda>document.
                    nf
                      \<lparr> value' = document,
                        path' = [PrismicDocument.type document],
                        getNode' = getNode this,
                        getTypePath' = getTypePath this,
                        nodeHelpers' = nodeHelpers this,
                        linkResolver' = linkResolver (config this),
                        htmlSerializer' = htmlSerializer (config this),
                        imageImgixParams' = imageImgixParams (config this),
                        imagePlaceholderImgixParams' = imagePlaceholderImgixParams (config this),
                        transformFieldName' = transformFieldName (config this) \<rparr>)
               documents
       \<and> after (registerDocuments nf call documents this)
           = fold call (subscribers this)
               (this\<lparr>nodes := nodes this
                                 @ returned (registerDocuments nf call documents this)\<rparr>)
       \<and> (only_reads call \<longrightarrow>
            nodes (after (registerDocuments nf call documents this))
              = nodes this @ returned (registerDocuments nf call documents this))"
proof -
  let ?r = "registerDocument nf call document this"
  let ?rs = "registerDocuments nf call documents this"
  have a: "returned ?r = normalizeDocument nf document this"
    by (simp add: registerDocument_def Let_def split_beta)
  have b: "after ?r = fold call (subscribers this) (this\<lparr>nodes := nodes this @ [returned ?r]\<rparr>)"
    by (simp add: registerDocument_def notifySubscribers_def Let_def split_beta for_of_call_state)
  have c: "only_reads call \<longrightarrow> nodes (after ?r) = nodes this @ [returned ?r]"
  proof
    assume r: "only_reads call"
    have "after ?r = (this\<lparr>nodes := nodes this @ [returned ?r]\<rparr>)\<lparr>outside := outside (after ?r)\<rparr>"
      using only_reads_fold [OF r, of "subscribers this" "this\<lparr>nodes := nodes this @ [returned ?r]\<rparr>"]
      by (simp add: b [symmetric])
    then show "nodes (after ?r) = nodes this @ [returned ?r]"
      by (metis Runtime.select_convs(1) Runtime.surjective Runtime.update_convs(1,6))
  qed
  have d: "returned ?rs = map (\<lambda>document. normalizeDocument nf document this) documents"
    by (simp add: registerDocuments_def Let_def split_beta)
  have e: "after ?rs = fold call (subscribers this) (this\<lparr>nodes := nodes this @ returned ?rs\<rparr>)"
    by (simp add: registerDocuments_def notifySubscribers_def Let_def split_beta for_of_call_state)
  have f: "only_reads call \<longrightarrow> nodes (after ?rs) = nodes this @ returned ?rs"
  proof
    assume r: "only_reads call"
    have "after ?rs = (this\<lparr>nodes := nodes this @ returned ?rs\<rparr>)\<lparr>outside := outside (after ?rs)\<rparr>"
      using only_reads_fold [OF r, of "subscribers this" "this\<lparr>nodes := nodes this @ returned ?rs\<rparr>"]
      by (simp add: e [symmetric])
    then show "nodes (after ?rs) = nodes this @ returned ?rs"
      by (metis Runtime.select_convs(1) Runtime.surjective Runtime.update_convs(1,6))
  qed
  show ?thesis
    using a b c d e f by (simp add: normalizeDocument_def normalize_def)
qed

text \<open>
  The theorem for a document of type \<open>page\<close> and for two documents of the types
  \<open>post\<close> and \<open>page\<close>, on a Runtime that holds three nodes already.
\<close>

theorem registerDocument_appends_normalized_witness:
  "only_reads example_call
   \<and> returned (registerDocument (normalize_fn example_externals) example_call example_document
                 (example_subscribed\<lparr>nodes := example_nodes\<rparr>))
       = \<lparr>prismicId = ''X1'', node_rest = [''page'']\<rparr>
   \<and> nodes (after (registerDocument (normalize_fn example_externals) example_call example_document
                 (example_subscribed\<lparr>nodes := example_nodes\<rparr>)))
       = example_nodes @ [\<lparr>prismicId = ''X1'', node_rest = [''page'']\<rparr>]
   \<and> returned (registerDocuments (normalize_fn example_externals) example_call example_documents
                 (example_subscribed\<lparr>nodes := example_nodes\<rparr>))
       = [\<lparr>prismicId = ''X2'', node_rest = [''post'']\<rparr>,
          \<lparr>prismicId = ''X3'', node_rest = [''page'']\<rparr>]
   \<and> nodes (after (registerDocuments (normalize_fn example_externals) example_call
                      example_documents (example_subscribed\<lparr>nodes := example_nodes\<rparr>)))
       = example_nodes
         @ [\<lparr>prismicId = ''X2'', node_rest = [''post'']\<rparr>,
            \<lparr>prismicId = ''X3'', node_rest = [''page'']\<rparr>]"
proof -
  let ?rt = "example_subscribed\<lparr>nodes := example_nodes\<rparr>"
  let ?nf = "normalize_fn example_externals"
  note t = registerDocument_appends_normalized
             [of ?nf example_call example_document ?rt example_documents]
  have r: "only_reads example_call"
    by (simp add: only_reads_def example_call_def)
  from t have "returned (registerDocument ?nf example_call example_document ?rt)
      = ?nf \<lparr> value' = example_document,
              path' = [PrismicDocument.type example_document],
              getNode' = getNode ?rt,
              getTypePath' = getTypePath ?rt,
              nodeHelpers' = nodeHelpers ?rt,
              linkResolver' = linkResolver (config ?rt),
              htmlSerializer' = htmlSerializer (config ?rt),
              imageImgixParams' = imageImgixParams (config ?rt),
              imagePlaceholderImgixParams' = imagePlaceholderImgixParams (config ?rt),
              transformFieldName' = transformFieldName (config ?rt) \<rparr>"
    by (elim conjE)
  then have one: "returned (registerDocument ?nf example_call example_document ?rt)
      = \<lparr>prismicId = ''X1'', node_rest = [''page'']\<rparr>"
    by (simp add: example_externals_def example_document_def)
  from t r have "nodes (after (registerDocument ?nf example_call example_document ?rt))
      = nodes ?rt @ [returned (registerDocument ?nf example_call example_document ?rt)]"
    by (elim conjE impE)
  with one have one_after: "nodes (after (registerDocument ?nf example_call example_document ?rt))
      = example_nodes @ [\<lparr>prismicId = ''X1'', node_rest = [''page'']\<rparr>]"
    by simp
  from t have "returned (registerDocuments ?nf example_call example_documents ?rt)
      = map (\<lambda>document.
          ?nf \<lparr> value' = document,
                path' = [PrismicDocument.type document],
                getNode' = getNode ?rt,
                getTypePath' = getTypePath ?rt,
                nodeHelpers' = nodeHelpers ?rt,
                linkResolver' = linkResolver (config ?rt),
                htmlSerializer' = htmlSerializer (config ?rt),
                imageImgixParams' = imageImgixParams (config ?rt),
                imagePlaceholderImgixParams' = imagePlaceholderImgixParams (config ?rt),
                transformFieldName' = transformFieldName (config ?rt) \<rparr>)
          example_documents"
    by (elim conjE)
  then have many: "returned (registerDocuments ?nf example_call example_documents ?rt)
      = [\<lparr>prismicId = ''X2'', node_rest = [''post'']\<rparr>,
         \<lparr>prismicId = ''X3'', node_rest = [''page'']\<rparr>]"
    by (simp add: example_externals_def example_documents_def)
  from t r have "nodes (after (registerDocuments ?nf example_call example_documents ?rt))
      = nodes ?rt @ returned (registerDocuments ?nf example_call example_documents ?rt)"
    by (elim conjE impE)
  with many have many_after:
    "nodes (after (registerDocuments ?nf example_call example_documents ?rt))
      = example_nodes
        @ [\<lparr>prismicId = ''X2'', node_rest = [''post'']\<rparr>,
           \<lparr>prismicId = ''X3'', node_rest = [''page'']\<rparr>]"
    by simp
  show ?thesis using r one one_after many many_after by simp
qed

section \<open>Subscribing during a notification\<close>

text \<open>
  C10. Let every callback, when it is called, make calls of \<open>subscribe\<close> and
  \<open>unsubscribe\<close>, whichever and however many. A registering method then calls the
  callbacks that were subscribed when it was called, in order: the same calls as
  when no callback subscribes or unsubscribes. The field \<open>subscribers\<close> does change:
  afterwards it is what the callbacks' calls made of it.
\<close>

theorem notification_goes_through_the_array_it_read:
  fixes this :: "('a, 't, 'lr, 'ip, 'hs, 'n, 'e) Runtime"
  shows "map fst (snd (perform ext (\<lambda>f. make_subscription_calls (script f)) m this))
           = subscribers this
       \<and> map fst (snd (perform ext (\<lambda>f. make_subscription_calls (script f)) m this))
           = map fst (snd (perform ext (\<lambda>f w. w) m this))
       \<and> subscribers (fst (perform ext (\<lambda>f. make_subscription_calls (script f)) m this))
           = subscribers (fold (\<lambda>f. make_subscription_calls (script f)) (subscribers this) this)"
proof -
  let ?call = "\<lambda>f. make_subscription_calls (script f)"
  obtain g where g: "\<And>w :: ('a, 't, 'lr, 'ip, 'hs, 'n, 'e) Runtime.
      fold ?call (subscribers this) w = w\<lparr>subscribers := g (subscribers w)\<rparr>"
    using fold_subscription_calls [of script "subscribers this"] by blast
  have "subscribers (fold ?call (subscribers this) (mutated ext m this))
          = g (subscribers (mutated ext m this))"
    by (subst g) simp
  also have "\<dots> = g (subscribers this)"
    by (simp add: mutated_def)
  also have "\<dots> = subscribers (fold ?call (subscribers this) this)"
    by (subst g) simp
  finally have "subscribers (fst (perform ext ?call m this))
           = subscribers (fold ?call (subscribers this) this)"
    by (simp add: perform_state)
  then show ?thesis by (simp add: perform_callbacks)
qed

text \<open>
  The theorem for the subscribers 0, 1, 2, where the callback 0 subscribes 5 and
  the callback 1 unsubscribes 2 and 0: all three are called, 2 after it was
  unsubscribed, and 5 is not.
\<close>

theorem notification_goes_through_the_array_it_read_witness:
  "subscribers (fold subscribe [0, 1, 2] example_runtime) = [0, 1, 2]
   \<and> map fst (snd (perform example_externals (\<lambda>f. make_subscription_calls (example_script f))
                     (RegisterTypePaths []) (fold subscribe [0, 1, 2] example_runtime)))
       = [0, 1, 2]
   \<and> subscribers (fst (perform example_externals (\<lambda>f. make_subscription_calls (example_script f))
                     (RegisterTypePaths []) (fold subscribe [0, 1, 2] example_runtime)))
       = [1, 5]"
proof -
  let ?rt = "fold subscribe [0, 1, 2] example_runtime"
  note t = notification_goes_through_the_array_it_read
             [of example_externals example_script "RegisterTypePaths []" ?rt]
  have s: "subscribers ?rt = [0, 1, 2]"
    by (simp add: subscribe_def example_runtime_def createRuntime_def constructor_def)
  from t s have c: "map fst (snd (perform example_externals
                     (\<lambda>f. make_subscription_calls (example_script f))
                     (RegisterTypePaths []) ?rt)) = [0, 1, 2]"
    by simp
  from t have "subscribers (fst (perform example_externals
                     (\<lambda>f. make_subscription_calls (example_script f))
                     (RegisterTypePaths []) ?rt))
       = subscribers (fold (\<lambda>f. make_subscription_calls (example_script f)) (subscribers ?rt) ?rt)"
    by (elim conjE)
  then have a: "subscribers (fst (perform example_externals
                     (\<lambda>f. make_subscription_calls (example_script f))
                     (RegisterTypePaths []) ?rt)) = [1, 5]"
    by (simp add: s) (simp add: example_script_def subscribe_def unsubscribe_def example_runtime_def
          createRuntime_def constructor_def)
  show ?thesis using s c a by simp
qed

section \<open>Content digests\<close>

text \<open>
  C3, as the source has it. \<open>createContentDigest(input)\<close> is the \<open>md5\<close> of
  \<open>JSON.stringify(input)\<close>. Equal inputs have equal digests, and so do inputs with
  the same serialization; two inputs have different digests only if their
  serializations are different. Two different inputs that are JSON (no
  \<open>undefined\<close>, \<open>NaN\<close> or infinity in them) have two different serializations,
  and their digests are the \<open>md5\<close> of the one string and of the other: equal
  exactly when \<open>md5\<close> gives these two strings one digest. For this last part,
  Number::toString is taken to give different finite numbers different texts, each
  not empty and written with digits, signs, the point and the letter \<open>e\<close> only.
\<close>

theorem contentDigest_is_md5_of_serialization:
  "createContentDigest md5 Number_toString P1 = md5 (JSON_stringify Number_toString P1)
   \<and> (P1 = P2 \<longrightarrow>
        createContentDigest md5 Number_toString P1 = createContentDigest md5 Number_toString P2)
   \<and> (JSON_stringify Number_toString P1 = JSON_stringify Number_toString P2 \<longrightarrow>
        createContentDigest md5 Number_toString P1 = createContentDigest md5 Number_toString P2)
   \<and> (createContentDigest md5 Number_toString P1 \<noteq> createContentDigest md5 Number_toString P2 \<longrightarrow>
        JSON_stringify Number_toString P1 \<noteq> JSON_stringify Number_toString P2 \<and> P1 \<noteq> P2)
   \<and> (number_texts Number_toString \<and> is_JSON P1 \<and> is_JSON P2 \<and> P1 \<noteq> P2 \<longrightarrow>
        (\<exists>s1 s2. s1 \<noteq> s2
           \<and> JSON_stringify Number_toString P1 = Some s1
           \<and> JSON_stringify Number_toString P2 = Some s2
           \<and> createContentDigest md5 Number_toString P1 = md5 (Some s1)
           \<and> createContentDigest md5 Number_toString P2 = md5 (Some s2)
           \<and> (createContentDigest md5 Number_toString P1 = createContentDigest md5 Number_toString P2
                \<longleftrightarrow> md5 (Some s1) = md5 (Some s2))))"
proof -
  let ?ts = Number_toString
  have apart: "\<exists>s1 s2. s1 \<noteq> s2
           \<and> JSON_stringify ?ts P1 = Some s1
           \<and> JSON_stringify ?ts P2 = Some s2
           \<and> createContentDigest md5 ?ts P1 = md5 (Some s1)
           \<and> createContentDigest md5 ?ts P2 = md5 (Some s2)
           \<and> (createContentDigest md5 ?ts P1 = createContentDigest md5 ?ts P2
                \<longleftrightarrow> md5 (Some s1) = md5 (Some s2))"
    if nt: "number_texts ?ts" and j1: "is_JSON P1" and j2: "is_JSON P2" and ne: "P1 \<noteq> P2"
  proof -
    have s1: "JSON_stringify ?ts P1 = Some (json_text ?ts P1)"
      using j1 by (simp add: JSON_stringify_def is_JSON_serializes)
    have s2: "JSON_stringify ?ts P2 = Some (json_text ?ts P2)"
      using j2 by (simp add: JSON_stringify_def is_JSON_serializes)
    have "JSON_stringify ?ts P1 \<noteq> JSON_stringify ?ts P2"
      using JSON_stringify_inject [OF nt j1 j2] ne by blast
    with s1 s2 have d: "json_text ?ts P1 \<noteq> json_text ?ts P2" by simp
    show ?thesis
      apply (rule exI [where x = "json_text ?ts P1"])
      apply (rule exI [where x = "json_text ?ts P2"])
      using d s1 s2 by (simp add: createContentDigest_def)
  qed
  have base: "createContentDigest md5 ?ts P1 = md5 (JSON_stringify ?ts P1)"
    "createContentDigest md5 ?ts P2 = md5 (JSON_stringify ?ts P2)"
    by (simp_all add: createContentDigest_def)
  show ?thesis
    using apart base by auto
qed

text \<open>
  The theorem for an object with a property that holds \<open>undefined\<close> and the object
  without that property, for two objects that differ in the order of their keys,
  and for two JSON objects that differ in one number; with \<open>plain_decimal\<close> in
  the place of Number::toString, and a function in the place of \<open>md5\<close> that keeps
  different strings apart.
\<close>

theorem contentDigest_is_md5_of_serialization_witness:
  "JSON_stringify plain_decimal (JObject [(''a'', JNumber (Finite 1)), (''b'', JUndefined)])
     = JSON_stringify plain_decimal (JObject [(''a'', JNumber (Finite 1))])
   \<and> createContentDigest example_md5 plain_decimal
         (JObject [(''a'', JNumber (Finite 1)), (''b'', JUndefined)])
       = createContentDigest example_md5 plain_decimal (JObject [(''a'', JNumber (Finite 1))])
   \<and> createContentDigest example_md5 plain_decimal (JObject [(''a'', JNull), (''b'', JBoolean True)])
       \<noteq> createContentDigest example_md5 plain_decimal
            (JObject [(''b'', JBoolean True), (''a'', JNull)])
   \<and> JSON_stringify plain_decimal (JObject [(''a'', JNull), (''b'', JBoolean True)])
       \<noteq> JSON_stringify plain_decimal (JObject [(''b'', JBoolean True), (''a'', JNull)])
   \<and> number_texts plain_decimal
   \<and> is_JSON (JObject [(''a'', JString ''x''), (''b'', JArray [JNumber (Finite (12 :: int))])])
   \<and> is_JSON (JObject [(''a'', JString ''x''), (''b'', JArray [JNumber (Finite (120 :: int))])])
   \<and> JSON_stringify plain_decimal
         (JObject [(''a'', JString ''x''), (''b'', JArray [JNumber (Finite 12)])])
       \<noteq> JSON_stringify plain_decimal
            (JObject [(''a'', JString ''x''), (''b'', JArray [JNumber (Finite 120)])])
   \<and> createContentDigest example_md5 plain_decimal
         (JObject [(''a'', JString ''x''), (''b'', JArray [JNumber (Finite 12)])])
       \<noteq> createContentDigest example_md5 plain_decimal
            (JObject [(''a'', JString ''x''), (''b'', JArray [JNumber (Finite 120)])])"
proof -
  let ?P1 = "JObject [(''a'', JNumber (Finite (1 :: int))), (''b'', JUndefined)]"
  let ?P2 = "JObject [(''a'', JNumber (Finite (1 :: int)))]"
  let ?Q1 = "JObject [(''a'', JNull), (''b'', JBoolean True)] :: int jsval"
  let ?Q2 = "JObject [(''b'', JBoolean True), (''a'', JNull)] :: int jsval"
  have same: "JSON_stringify plain_decimal ?P1 = JSON_stringify plain_decimal ?P2"
    by (simp add: JSON_stringify_def)
  with contentDigest_is_md5_of_serialization [of example_md5 plain_decimal ?P1 ?P2]
  have eq: "createContentDigest example_md5 plain_decimal ?P1
              = createContentDigest example_md5 plain_decimal ?P2"
    by blast
  have differ: "createContentDigest example_md5 plain_decimal ?Q1
                  \<noteq> createContentDigest example_md5 plain_decimal ?Q2"
    by (simp add: createContentDigest_def JSON_stringify_def example_md5_def QuoteJSONString_def
          QuoteJSONChar_def)
  with contentDigest_is_md5_of_serialization [of example_md5 plain_decimal ?Q1 ?Q2]
  have ser: "JSON_stringify plain_decimal ?Q1 \<noteq> JSON_stringify plain_decimal ?Q2"
    by blast
  let ?R1 = "JObject [(''a'', JString ''x''), (''b'', JArray [JNumber (Finite (12 :: int))])]"
  let ?R2 = "JObject [(''a'', JString ''x''), (''b'', JArray [JNumber (Finite (120 :: int))])]"
  have nt: "number_texts plain_decimal" by (rule plain_decimal_number_texts)
  have json: "is_JSON ?R1 \<and> is_JSON ?R2" by simp
  have "?R1 \<noteq> ?R2" by simp
  with nt json contentDigest_is_md5_of_serialization [of example_md5 plain_decimal ?R1 ?R2]
  obtain s1 s2 where s: "s1 \<noteq> s2"
      "JSON_stringify plain_decimal ?R1 = Some s1" "JSON_stringify plain_decimal ?R2 = Some s2"
      "createContentDigest example_md5 plain_decimal ?R1 = example_md5 (Some s1)"
      "createContentDigest example_md5 plain_decimal ?R2 = example_md5 (Some s2)"
    by blast
  from s(1,2,3) have apart: "JSON_stringify plain_decimal ?R1 \<noteq> JSON_stringify plain_decimal ?R2"
    by simp
  from s(1,4,5) have digests: "createContentDigest example_md5 plain_decimal ?R1
                                \<noteq> createContentDigest example_md5 plain_decimal ?R2"
    by (simp add: example_md5_def)
  show ?thesis using same eq differ ser nt json apart digests by blast
qed

text \<open>
  C3 as it is stated fails, whatever function \<open>md5\<close> is and however finite numbers
  are written: an object with a property that holds \<open>undefined\<close> and the object
  without the property have one digest, and so do objects that differ in one field
  value, which is \<open>NaN\<close>, \<open>null\<close>, or an infinity.
\<close>

theorem contentDigest_collision_counterexample:
  "\<forall>md5 (Number_toString :: 'n \<Rightarrow> string).
     (JObject [(''a'', JUndefined)] :: 'n jsval) \<noteq> JObject []
   \<and> createContentDigest md5 Number_toString (JObject [(''a'', JUndefined)])
       = createContentDigest md5 Number_toString (JObject [])
   \<and> (JObject [(''a'', JNumber NaN)] :: 'n jsval) \<noteq> JObject [(''a'', JNull)]
   \<and> createContentDigest md5 Number_toString (JObject [(''a'', JNumber NaN)])
       = createContentDigest md5 Number_toString (JObject [(''a'', JNull)])
   \<and> (JObject [(''a'', JNumber Infinity)] :: 'n jsval) \<noteq> JObject [(''a'', JNull)]
   \<and> createContentDigest md5 Number_toString (JObject [(''a'', JNumber Infinity)])
       = createContentDigest md5 Number_toString (JObject [(''a'', JNull)])
   \<and> (JObject [(''a'', JNumber NegInfinity)] :: 'n jsval) \<noteq> JObject [(''a'', JNumber Infinity)]
   \<and> createContentDigest md5 Number_toString (JObject [(''a'', JNumber NegInfinity)])
       = createContentDigest md5 Number_toString (JObject [(''a'', JNumber Infinity)])"
  by (simp add: createContentDigest_def JSON_stringify_def)

section \<open>A new Runtime, and the order of registration\<close>

text \<open>
  A Runtime made by \<open>createRuntime\<close> has no nodes, no TypePaths and no
  subscribers, so both lookups find nothing; and when no \<open>transformFieldName\<close> is
  configured, field names are transformed by replacing every hyphen with an
  underscore.
\<close>

theorem createRuntime_starts_empty:
  "nodes (createRuntime consts md5 Number_toString config' env) = []
   \<and> typePaths (createRuntime consts md5 Number_toString config' env) = []
   \<and> subscribers (createRuntime consts md5 Number_toString config' env) = []
   \<and> getNode (createRuntime consts md5 Number_toString config' env) id' = None
   \<and> getTypePath (createRuntime consts md5 Number_toString config' env) q = None
   \<and> transformFieldName (config (createRuntime consts md5 Number_toString None env)) = replace_hyphens
   \<and> replace_hyphens ''my-field-name'' = ''my_field_name''"
  by (simp add: createRuntime_def constructor_def getNode_def getTypePath_def empty_config_def
        replace_hyphens_def)

text \<open>
  Registering two lists of TypePaths in either order gives the same lookups, when no
  path of the one list has the joined string of a path of the other and the
  callbacks only read the Runtime.
\<close>

theorem registration_order_of_unrelated_paths:
  fixes this :: "('a, 't, 'lr, 'ip, 'hs, 'n, 'e) Runtime"
  assumes unrelated: "\<forall>a \<in> set tps1. \<forall>b \<in> set tps2.
                        join (path a) SEPARATOR \<noteq> join (path b) SEPARATOR"
    and reads: "only_reads call"
  shows "getTypePath (after (registerTypePaths call tps2
                               (after (registerTypePaths call tps1 this)))) q
       = getTypePath (after (registerTypePaths call tps1
                               (after (registerTypePaths call tps2 this)))) q"
proof -
  let ?P = "\<lambda>typePath. join (path typePath) SEPARATOR = join q SEPARATOR"
  have tp: "typePaths (after (registerTypePaths call tps w)) = typePaths w @ tps"
    for tps and w :: "('a, 't, 'lr, 'ip, 'hs, 'n, 'e) Runtime"
  proof -
    have "after (registerTypePaths call tps w)
            = fold call (subscribers w) (w\<lparr>typePaths := typePaths w @ tps\<rparr>)"
      by (simp add: registerTypePaths_def notifySubscribers_def split_beta Let_def
            for_of_call_state)
    then have "after (registerTypePaths call tps w)
            = (w\<lparr>typePaths := typePaths w @ tps\<rparr>)
                \<lparr>outside := outside (after (registerTypePaths call tps w))\<rparr>"
      using only_reads_fold [OF reads, of "subscribers w" "w\<lparr>typePaths := typePaths w @ tps\<rparr>"]
      by simp
    then show ?thesis
      by (metis Runtime.select_convs(2) Runtime.surjective Runtime.update_convs(2,6))
  qed
  have one: "find ?P tps1 = None \<or> find ?P tps2 = None"
  proof (rule ccontr)
    assume "\<not> (find ?P tps1 = None \<or> find ?P tps2 = None)"
    then obtain a b where "a \<in> set tps1" "?P a" "b \<in> set tps2" "?P b"
      by (auto simp: find_None_iff)
    with unrelated show False by metis
  qed
  then have "find ?P (tps1 @ tps2) = find ?P (tps2 @ tps1)"
    by (auto simp: find_append_cases split: option.splits)
  then have "find ?P (typePaths this @ tps1 @ tps2) = find ?P (typePaths this @ tps2 @ tps1)"
    by (cases "find ?P (typePaths this)")
       (simp_all only: find_append_cases [of ?P "typePaths this"] option.case)
  then show ?thesis
    by (simp add: getTypePath_def tp)
qed

text \<open>
  The theorem for the paths \<open>page, title\<close> and \<open>post, body\<close>.
\<close>

theorem registration_order_of_unrelated_paths_witness:
  "only_reads example_call
   \<and> join [''page'', ''title''] SEPARATOR \<noteq> join [''post'', ''body''] SEPARATOR
   \<and> getTypePath (after (registerTypePaths example_call
                            [\<lparr>path = [''post'', ''body''], type = ''Slices''\<rparr>]
                            (after (registerTypePaths example_call
                                      [\<lparr>path = [''page'', ''title''], type = ''Text''\<rparr>]
                                      example_subscribed))))
        [''post'', ''body'']
     = getTypePath (after (registerTypePaths example_call
                            [\<lparr>path = [''page'', ''title''], type = ''Text''\<rparr>]
                            (after (registerTypePaths example_call
                                      [\<lparr>path = [''post'', ''body''], type = ''Slices''\<rparr>]
                                      example_subscribed))))
        [''post'', ''body'']"
proof -
  have r: "only_reads example_call"
    by (simp add: only_reads_def example_call_def)
  have d: "join [''page'', ''title''] SEPARATOR \<noteq> join [''post'', ''body''] SEPARATOR"
    by (simp add: SEPARATOR_def)
  then have u: "\<forall>a \<in> set [\<lparr>path = [''page'', ''title''], type = ''Text''\<rparr>].
          \<forall>b \<in> set [\<lparr>path = [''post'', ''body''], type = ''Slices''\<rparr>].
            join (path a) SEPARATOR \<noteq> join (path b) SEPARATOR"
    by simp
  show ?thesis
    using registration_order_of_unrelated_paths [OF u r, of example_subscribed "[''post'', ''body'']"] r d
    by simp
qed

end
